theory Spec2Isabelle
  imports Main "HOL-Library.AList" "HOL-Library.Sublist"
begin

section \<open>Application service client (synapse/appservice/api.py)\<close>

text \<open>
  A shallow embedding of \<^verbatim>\<open>ApplicationServiceApi\<close>. Every coroutine of the class becomes a
  function that takes the external collaborators explicitly and returns its outcome
  together with the list of HTTP requests it issued, in order. A Python exception that
  leaves the coroutine is the left injection of the outcome. Log lines and metric
  counters are not part of the model.
\<close>

subsection \<open>JSON values, exceptions, services, requests\<close>

text \<open>
  A decoded JSON document. A Python dict is the list of its items in insertion order,
  read with \<open>map_of\<close>; non-integral numbers play no role in any check of the module and
  are left out.
\<close>

datatype json =
    JNull
  | JBool bool
  | JInt int
  | JStr string
  | JList "json list"
  | JDict "(string \<times> json) list"

datatype py_exception =
    AssertionError
  | ValueError
  | AttributeError
  | TypeError
  | KeyError
  | CodeMessageException nat string
  | OtherException string

record ApplicationService =
  service_id :: string
  url :: "string option"
  hs_token :: "string option"
  supports_ephemeral :: bool
  msc3202_transaction_extensions :: bool

datatype http_method = GET | POST | PUT

datatype arg_value = ArgStr string | ArgList "string list"

record request =
  http_verb :: http_method
  uri :: string
  args :: "(string \<times> arg_value) list"
  json_body :: "json option"
  headers :: "(string \<times> string list) list"

record event =
  etype :: string
  membership :: string
  state_key :: string
  content :: json

text \<open>
  The collaborators the class reaches through \<^verbatim>\<open>self\<close>, \<^verbatim>\<open>hs\<close> and imported modules:
  the HTTP transport of \<^verbatim>\<open>SimpleHttpClient\<close> (\<^verbatim>\<open>get_json\<close>, \<^verbatim>\<open>put_json\<close>,
  \<^verbatim>\<open>post_json_get_json\<close>: the decoded body of a 2xx answer, or the exception raised),
  the clock, \<^verbatim>\<open>serialize_event\<close>, \<^verbatim>\<open>ApplicationService.is_interested_in_user\<close> and
  \<^verbatim>\<open>ThirdPartyInstanceID(...).to_string()\<close>.
\<close>

record collaborators =
  http :: "request \<Rightarrow> py_exception + json"
  time_msec :: nat
  serialize_event :: "event \<Rightarrow> nat \<Rightarrow> bool \<Rightarrow> json"
  is_interested_in_user :: "ApplicationService \<Rightarrow> string \<Rightarrow> bool"
  instance_id_to_string :: "string \<Rightarrow> json \<Rightarrow> string"

type_synonym 'a outcome = "(py_exception + 'a) \<times> request list"

definition HOUR_IN_MS :: nat where
  "HOUR_IN_MS = 60 * 60 * 1000"

definition APP_SERVICE_PREFIX :: string where
  "APP_SERVICE_PREFIX = ''/_matrix/app/unstable''"

text \<open>
  Modelled from the spec: the two members of \<^verbatim>\<open>ThirdPartyEntityKind\<close>
  (synapse/api/constants.py), which the spec gives as kind \<open>\<in>\<close> {user, location}.
\<close>

definition ThirdPartyEntityKind_USER :: string where
  "ThirdPartyEntityKind_USER = ''user''"

definition ThirdPartyEntityKind_LOCATION :: string where
  "ThirdPartyEntityKind_LOCATION = ''location''"

text \<open>
  Modelled from the spec: \<^verbatim>\<open>EventTypes.Member\<close>, \<^verbatim>\<open>Membership.INVITE\<close> and
  \<^verbatim>\<open>Membership.KNOCK\<close> (synapse/api/constants.py): the room-membership event type and
  the membership states \<open>invite\<close> and \<open>knock\<close>.
\<close>

definition EventTypes_Member :: string where
  "EventTypes_Member = ''m.room.member''"

definition Membership_INVITE :: string where
  "Membership_INVITE = ''invite''"

definition Membership_KNOCK :: string where
  "Membership_KNOCK = ''knock''"

subsection \<open>The Python operations the module applies to untrusted values\<close>

text \<open>\<^verbatim>\<open>k in v\<close>: keys of a dict, elements of a list, substrings of a str; TypeError otherwise.\<close>

fun py_in :: "string \<Rightarrow> json \<Rightarrow> py_exception + bool" where
  "py_in k (JDict kvs) = Inr (k \<in> set (map fst kvs))"
| "py_in k (JList xs) = Inr (JStr k \<in> set xs)"
| "py_in k (JStr s) = Inr (sublist k s)"
| "py_in k _ = Inl TypeError"

text \<open>\<^verbatim>\<open>v.get(k, default)\<close>: only a dict has the method.\<close>

fun py_get :: "json \<Rightarrow> string \<Rightarrow> json \<Rightarrow> py_exception + json" where
  "py_get (JDict kvs) k dflt = Inr (case map_of kvs k of None \<Rightarrow> dflt | Some v \<Rightarrow> v)"
| "py_get _ k dflt = Inl AttributeError"

text \<open>
  \<^verbatim>\<open>v["instances"]\<close> after the membership test succeeded: a dict yields the value, a
  list or a str raises TypeError (their indices are integers).
\<close>

fun py_getitem :: "json \<Rightarrow> string \<Rightarrow> py_exception + json" where
  "py_getitem (JDict kvs) k = (case map_of kvs k of None \<Rightarrow> Inl KeyError | Some v \<Rightarrow> Inr v)"
| "py_getitem _ k = Inl TypeError"

fun isinstance_dict :: "json \<Rightarrow> bool" where
  "isinstance_dict (JDict kvs) = True"
| "isinstance_dict _ = False"

fun isinstance_str :: "json \<Rightarrow> bool" where
  "isinstance_str (JStr s) = True"
| "isinstance_str _ = False"

fun isinstance_list :: "json \<Rightarrow> bool" where
  "isinstance_list (JList xs) = True"
| "isinstance_list _ = False"

text \<open>
  \<^verbatim>\<open>urllib.parse.quote\<close> with its default \<^verbatim>\<open>safe="/"\<close>, on the UTF-8 bytes of the string:
  letters, digits and \<^verbatim>\<open>_.-~/\<close> stay, every other byte becomes \<^verbatim>\<open>%XX\<close>.
\<close>

definition always_safe :: "char \<Rightarrow> bool" where
  "always_safe c \<longleftrightarrow>
     c \<in> set ''ABCDEFGHIJKLMNOPQRSTUVWXYZabcdefghijklmnopqrstuvwxyz0123456789_.-~''"

definition hex_digit :: "nat \<Rightarrow> char" where
  "hex_digit n = ''0123456789ABCDEF'' ! (n mod 16)"

definition quote_byte :: "char \<Rightarrow> string" where
  "quote_byte c =
     (if always_safe c \<or> c = CHR ''/'' then [c]
      else [CHR ''%'', hex_digit ((of_char c :: nat) div 16), hex_digit ((of_char c :: nat) mod 16)])"

definition quote :: "string \<Rightarrow> string" where
  "quote s = concat (map quote_byte s)"

text \<open>\<^verbatim>\<open>str(n)\<close> for a Python int.\<close>

fun str_nat :: "nat \<Rightarrow> string" where
  "str_nat n =
     (if n < 10 then [hex_digit n] else str_nat (n div 10) @ [hex_digit (n mod 10)])"

definition str_int :: "int \<Rightarrow> string" where
  "str_int i = (if i < 0 then CHR ''-'' # str_nat (nat (- i)) else str_nat (nat i))"

definition bearer :: "string \<Rightarrow> (string \<times> string list) list" where
  "bearer tok = [(''Authorization'', [''Bearer '' @ tok])]"

subsection \<open>Result validators\<close>

text \<open>
  \<^verbatim>\<open>_is_valid_3pe_metadata\<close>. The annotation says \<^verbatim>\<open>JsonDict\<close>, but the caller passes
  whatever the service answered, so the two Python operations can raise.
\<close>

definition is_valid_3pe_metadata :: "json \<Rightarrow> py_exception + bool" where
  "is_valid_3pe_metadata info =
     (case py_in ''instances'' info of
        Inl e \<Rightarrow> Inl e
      | Inr False \<Rightarrow> Inr False
      | Inr True \<Rightarrow>
          (case py_getitem info ''instances'' of
             Inl e \<Rightarrow> Inl e
           | Inr v \<Rightarrow> if \<not> isinstance_list v then Inr False else Inr True))"

text \<open>\<^verbatim>\<open>_is_valid_3pe_result\<close>: the loop over \<^verbatim>\<open>(field, "protocol")\<close>, then \<^verbatim>\<open>"fields"\<close>.\<close>

fun key_is_str :: "(string \<times> json) list \<Rightarrow> string \<Rightarrow> bool" where
  "key_is_str r k =
     (case map_of r k of
        None \<Rightarrow> False
      | Some v \<Rightarrow> isinstance_str v)"

fun is_valid_3pe_result :: "json \<Rightarrow> string \<Rightarrow> bool" where
  "is_valid_3pe_result (JDict r) field =
     (if \<not> list_all (key_is_str r) [field, ''protocol''] then False
      else (case map_of r ''fields'' of
              None \<Rightarrow> False
            | Some flds \<Rightarrow> if \<not> isinstance_dict flds then False else True))"
| "is_valid_3pe_result _ field = False"

subsection \<open>query_user, query_alias\<close>

definition query_user :: "collaborators \<Rightarrow> ApplicationService \<Rightarrow> string \<Rightarrow> bool outcome" where
  "query_user env service user_id =
     (case url service of
        None \<Rightarrow> (Inr False, [])
      | Some u \<Rightarrow>
          (case hs_token service of
             None \<Rightarrow> (Inl AssertionError, [])
           | Some tok \<Rightarrow>
               (let req = \<lparr> http_verb = GET,
                            uri = u @ ''/users/'' @ quote user_id,
                            args = [(''access_token'', ArgStr tok)],
                            json_body = None,
                            headers = bearer tok \<rparr>
                in (case http env req of
                      Inr response \<Rightarrow> if response \<noteq> JNull then (Inr True, [req]) else (Inr False, [req])
                    | Inl (CodeMessageException code msg) \<Rightarrow>
                        if code = 404 then (Inr False, [req]) else (Inr False, [req])
                    | Inl ex \<Rightarrow> (Inr False, [req])))))"

definition query_alias :: "collaborators \<Rightarrow> ApplicationService \<Rightarrow> string \<Rightarrow> bool outcome" where
  "query_alias env service alias =
     (case url service of
        None \<Rightarrow> (Inr False, [])
      | Some u \<Rightarrow>
          (case hs_token service of
             None \<Rightarrow> (Inl AssertionError, [])
           | Some tok \<Rightarrow>
               (let req = \<lparr> http_verb = GET,
                            uri = u @ ''/rooms/'' @ quote alias,
                            args = [(''access_token'', ArgStr tok)],
                            json_body = None,
                            headers = bearer tok \<rparr>
                in (case http env req of
                      Inr response \<Rightarrow> if response \<noteq> JNull then (Inr True, [req]) else (Inr False, [req])
                    | Inl (CodeMessageException code msg) \<Rightarrow>
                        if code = 404 then (Inr False, [req]) else (Inr False, [req])
                    | Inl ex \<Rightarrow> (Inr False, [req])))))"

subsection \<open>query_3pe\<close>

text \<open>The loop that appends the valid results to \<^verbatim>\<open>ret\<close>.\<close>

fun query_3pe_loop :: "string \<Rightarrow> json list \<Rightarrow> json list \<Rightarrow> json list" where
  "query_3pe_loop required_field [] ret = ret"
| "query_3pe_loop required_field (r # rs) ret =
     (if is_valid_3pe_result r required_field
      then query_3pe_loop required_field rs (ret @ [r])
      else query_3pe_loop required_field rs ret)"

text \<open>\<^verbatim>\<open>{**fields, b"access_token": service.hs_token}\<close>: a key of \<^verbatim>\<open>fields\<close> is overwritten in place.\<close>

definition query_3pe_args :: "(string \<times> string list) list \<Rightarrow> string \<Rightarrow> (string \<times> arg_value) list" where
  "query_3pe_args flds tok =
     AList.update ''access_token'' (ArgStr tok) (map (\<lambda>(k, v). (k, ArgList v)) flds)"

definition query_3pe ::
  "collaborators \<Rightarrow> ApplicationService \<Rightarrow> string \<Rightarrow> string \<Rightarrow> (string \<times> string list) list
     \<Rightarrow> json list outcome" where
  "query_3pe env service kind protocol flds =
     (case (if kind = ThirdPartyEntityKind_USER then Inr ''userid''
            else if kind = ThirdPartyEntityKind_LOCATION then Inr ''alias''
            else Inl ValueError) of
        Inl e \<Rightarrow> (Inl e, [])
      | Inr required_field \<Rightarrow>
          (case url service of
             None \<Rightarrow> (Inr [], [])
           | Some u \<Rightarrow>
               (case hs_token service of
                  None \<Rightarrow> (Inl AssertionError, [])
                | Some tok \<Rightarrow>
                    (let req = \<lparr> http_verb = GET,
                                 uri = u @ APP_SERVICE_PREFIX @ ''/thirdparty/'' @ kind @ ''/'' @ quote protocol,
                                 args = query_3pe_args flds tok,
                                 json_body = None,
                                 headers = bearer tok \<rparr>
                     in (case http env req of
                           Inr response \<Rightarrow>
                             (case response of
                                JList rs \<Rightarrow> (Inr (query_3pe_loop required_field rs []), [req])
                              | _ \<Rightarrow> (Inr [], [req]))
                         | Inl ex \<Rightarrow> (Inr [], [req]))))))"

subsection \<open>get_3pe_protocol: the producer \<^verbatim>\<open>_get\<close>\<close>

text \<open>
  The loop over \<^verbatim>\<open>info.get("instances", [])\<close>. The source writes \<^verbatim>\<open>instance_id\<close> into each
  instance in place; here the updated instances are returned.
\<close>

fun add_instance_ids :: "collaborators \<Rightarrow> ApplicationService \<Rightarrow> json list \<Rightarrow> py_exception + json list" where
  "add_instance_ids env service [] = Inr []"
| "add_instance_ids env service (inst # rest) =
     (case py_get inst ''network_id'' JNull of
        Inl e \<Rightarrow> Inl e
      | Inr network_id \<Rightarrow>
          (let inst' =
             (if network_id \<noteq> JNull
              then (case inst of
                      JDict kvs \<Rightarrow>
                        JDict (AList.update ''instance_id''
                                 (JStr (instance_id_to_string env (service_id service) network_id)) kvs)
                    | _ \<Rightarrow> inst)
              else inst)
           in (case add_instance_ids env service rest of
                 Inl e \<Rightarrow> Inl e
               | Inr rest' \<Rightarrow> Inr (inst' # rest'))))"

text \<open>What the \<^verbatim>\<open>try\<close> block of \<^verbatim>\<open>_get\<close> computes from the decoded answer.\<close>

definition get_3pe_protocol_info :: "collaborators \<Rightarrow> ApplicationService \<Rightarrow> json \<Rightarrow> py_exception + json option" where
  "get_3pe_protocol_info env service info =
     (case is_valid_3pe_metadata info of
        Inl e \<Rightarrow> Inl e
      | Inr False \<Rightarrow> Inr None
      | Inr True \<Rightarrow>
          (case py_get info ''instances'' (JList []) of
             Inl e \<Rightarrow> Inl e
           | Inr (JList insts) \<Rightarrow>
               (case add_instance_ids env service insts of
                  Inl e \<Rightarrow> Inl e
                | Inr insts' \<Rightarrow>
                    (case info of
                       JDict kvs \<Rightarrow> Inr (Some (JDict (AList.update ''instances'' (JList insts') kvs)))
                     | _ \<Rightarrow> Inr (Some info)))
           | Inr _ \<Rightarrow> Inl TypeError))"

text \<open>
  \<^verbatim>\<open>_get\<close> up to its suspension point: the assertion, which is outside the \<^verbatim>\<open>try\<close>, and the
  request handed to \<^verbatim>\<open>get_json\<close>. It is only called with \<^verbatim>\<open>service.url\<close> set.
\<close>

definition get_3pe_protocol_request :: "ApplicationService \<Rightarrow> string \<Rightarrow> string \<Rightarrow> py_exception + request" where
  "get_3pe_protocol_request service u protocol =
     (case hs_token service of
        None \<Rightarrow> Inl AssertionError
      | Some tok \<Rightarrow>
          Inr \<lparr> http_verb = GET,
                uri = u @ APP_SERVICE_PREFIX @ ''/thirdparty/protocol/'' @ quote protocol,
                args = [(''access_token'', ArgStr tok)],
                json_body = None,
                headers = bearer tok \<rparr>)"

text \<open>\<^verbatim>\<open>_get\<close> from the answer of the transport on: every exception inside the \<^verbatim>\<open>try\<close> yields \<^verbatim>\<open>None\<close>.\<close>

definition get_3pe_protocol_result ::
  "collaborators \<Rightarrow> ApplicationService \<Rightarrow> py_exception + json \<Rightarrow> json option" where
  "get_3pe_protocol_result env service answer =
     (case answer of
        Inr info \<Rightarrow>
          (case get_3pe_protocol_info env service info of
             Inl ex \<Rightarrow> None
           | Inr res \<Rightarrow> res)
      | Inl ex \<Rightarrow> None)"

definition get_3pe_protocol_get ::
  "collaborators \<Rightarrow> ApplicationService \<Rightarrow> string \<Rightarrow> string \<Rightarrow> json option outcome" where
  "get_3pe_protocol_get env service u protocol =
     (case get_3pe_protocol_request service u protocol of
        Inl e \<Rightarrow> (Inl e, [])
      | Inr req \<Rightarrow> (Inr (get_3pe_protocol_result env service (http env req)), [req]))"

subsection \<open>ping\<close>

definition ping :: "collaborators \<Rightarrow> ApplicationService \<Rightarrow> string option \<Rightarrow> unit outcome" where
  "ping env service txn_id =
     (case url service of
        None \<Rightarrow> (Inl AssertionError, [])
      | Some u \<Rightarrow>
          (case hs_token service of
             None \<Rightarrow> (Inl AssertionError, [])
           | Some tok \<Rightarrow>
               (let req = \<lparr> http_verb = POST,
                            uri = u @ ''/_matrix/app/unstable/fi.mau.msc2659/ping'',
                            args = [],
                            json_body = Some (JDict [(''transaction_id'',
                                                     (case txn_id of None \<Rightarrow> JNull | Some t \<Rightarrow> JStr t))]),
                            headers = bearer tok \<rparr>
                in (case http env req of
                      Inr response \<Rightarrow> (Inr (), [req])
                    | Inl ex \<Rightarrow> (Inl ex, [req])))))"

subsection \<open>push_bulk\<close>

text \<open>\<^verbatim>\<open>DeviceListUpdates\<close>: two sets of user ids, given in the order \<^verbatim>\<open>list(...)\<close> yields them;
  the object is truthy when one of them is non-empty.\<close>

record DeviceListUpdates =
  changed :: "string list"
  left :: "string list"

definition serialize ::
  "collaborators \<Rightarrow> ApplicationService \<Rightarrow> event list \<Rightarrow> json list" where
  "serialize env service events =
     (let time_now = time_msec env
      in map (\<lambda>e. serialize_event env e time_now
                     (etype e = EventTypes_Member
                      \<and> (membership e = Membership_INVITE \<or> membership e = Membership_KNOCK)
                      \<and> is_interested_in_user env service (state_key e)))
             events)"

definition push_bulk_body ::
  "ApplicationService \<Rightarrow> json list \<Rightarrow> json list \<Rightarrow> json list \<Rightarrow> (string \<times> json) list
     \<Rightarrow> (string \<times> json) list \<Rightarrow> DeviceListUpdates \<Rightarrow> (string \<times> json) list" where
  "push_bulk_body service serialized_events ephemeral to_device_messages
       one_time_keys_count unused_fallback_keys device_list_summary =
     (let body = [(''events'', JList serialized_events)];
          body = (if supports_ephemeral service
                  then AList.update ''de.sorunome.msc2409.to_device'' (JList to_device_messages)
                         (AList.update ''de.sorunome.msc2409.ephemeral'' (JList ephemeral) body)
                  else body);
          body = (if msc3202_transaction_extensions service
                  then
                    (let body = (if one_time_keys_count \<noteq> []
                                 then AList.update ''org.matrix.msc3202.device_one_time_keys_count''
                                        (JDict one_time_keys_count)
                                        (AList.update ''org.matrix.msc3202.device_one_time_key_counts''
                                           (JDict one_time_keys_count) body)
                                 else body);
                         body = (if unused_fallback_keys \<noteq> []
                                 then AList.update ''org.matrix.msc3202.device_unused_fallback_key_types''
                                        (JDict unused_fallback_keys) body
                                 else body);
                         body = (if changed device_list_summary \<noteq> [] \<or> left device_list_summary \<noteq> []
                                 then AList.update ''org.matrix.msc3202.device_lists''
                                        (JDict [(''changed'', JList (map JStr (changed device_list_summary))),
                                                (''left'', JList (map JStr (left device_list_summary)))])
                                        body
                                 else body)
                     in body)
                  else body)
      in body)"

definition push_bulk ::
  "collaborators \<Rightarrow> ApplicationService \<Rightarrow> event list \<Rightarrow> json list \<Rightarrow> json list
     \<Rightarrow> (string \<times> json) list \<Rightarrow> (string \<times> json) list \<Rightarrow> DeviceListUpdates \<Rightarrow> int option
     \<Rightarrow> bool outcome" where
  "push_bulk env service events ephemeral to_device_messages
       one_time_keys_count unused_fallback_keys device_list_summary txn_id =
     (case url service of
        None \<Rightarrow> (Inr True, [])
      | Some u \<Rightarrow>
          (case hs_token service of
             None \<Rightarrow> (Inl AssertionError, [])
           | Some tok \<Rightarrow>
               (let serialized_events = serialize env service events;
                    txn = (case txn_id of None \<Rightarrow> 0 | Some t \<Rightarrow> t);
                    req = \<lparr> http_verb = PUT,
                            uri = u @ ''/transactions/'' @ quote (str_int txn),
                            args = [(''access_token'', ArgStr tok)],
                            json_body = Some (JDict (push_bulk_body service serialized_events ephemeral
                                                       to_device_messages one_time_keys_count
                                                       unused_fallback_keys device_list_summary)),
                            headers = bearer tok \<rparr>
                in (case http env req of
                      Inr response \<Rightarrow> (Inr True, [req])
                    | Inl ex \<Rightarrow> (Inr False, [req])))))"

subsection \<open>claim_client_keys\<close>

text \<open>
  \<^verbatim>\<open>body.setdefault(user_id, {}).setdefault(device, []).append(algorithm)\<close>, one triple at
  a time.
\<close>

type_synonym claim_body = "(string \<times> (string \<times> string list) list) list"

definition claim_body_add :: "claim_body \<Rightarrow> string \<times> string \<times> string \<Rightarrow> claim_body" where
  "claim_body_add body t =
     (case t of (user_id, device, algorithm) \<Rightarrow>
        (let devices = (case map_of body user_id of None \<Rightarrow> [] | Some ds \<Rightarrow> ds);
             algorithms = (case map_of devices device of None \<Rightarrow> [] | Some al \<Rightarrow> al)
         in AList.update user_id (AList.update device (algorithms @ [algorithm]) devices) body))"

definition claim_body_json :: "claim_body \<Rightarrow> json" where
  "claim_body_json body =
     JDict (map (\<lambda>(user_id, devices).
                   (user_id, JDict (map (\<lambda>(device, algorithms). (device, JList (map JStr algorithms)))
                                        devices)))
                body)"

text \<open>
  The comprehension that computes \<^verbatim>\<open>missing\<close>; it is outside the \<^verbatim>\<open>try\<close>, so an exception
  of \<^verbatim>\<open>.get\<close> or \<^verbatim>\<open>in\<close> on a response of another shape leaves the coroutine.
\<close>

fun claim_missing :: "json \<Rightarrow> (string \<times> string \<times> string) list \<Rightarrow> py_exception + (string \<times> string \<times> string) list" where
  "claim_missing response [] = Inr []"
| "claim_missing response ((user_id, device, algorithm) # rest) =
     (case py_get response user_id (JDict []) of
        Inl e \<Rightarrow> Inl e
      | Inr devices \<Rightarrow>
          (case py_get devices device (JList []) of
             Inl e \<Rightarrow> Inl e
           | Inr keys \<Rightarrow>
               (case py_in algorithm keys of
                  Inl e \<Rightarrow> Inl e
                | Inr found \<Rightarrow>
                    (case claim_missing response rest of
                       Inl e \<Rightarrow> Inl e
                     | Inr missing \<Rightarrow>
                         Inr (if \<not> found then (user_id, device, algorithm) # missing else missing)))))"

definition claim_client_keys ::
  "collaborators \<Rightarrow> ApplicationService \<Rightarrow> (string \<times> string \<times> string) list
     \<Rightarrow> (json \<times> (string \<times> string \<times> string) list) outcome" where
  "claim_client_keys env service query =
     (case url service of
        None \<Rightarrow> (Inr (JDict [], query), [])
      | Some u \<Rightarrow>
          (case hs_token service of
             None \<Rightarrow> (Inl AssertionError, [])
           | Some tok \<Rightarrow>
               (let body = foldl claim_body_add [] query;
                    req = \<lparr> http_verb = POST,
                            uri = u @ ''/_matrix/app/unstable/org.matrix.msc3983/keys/claim'',
                            args = [],
                            json_body = Some (claim_body_json body),
                            headers = bearer tok \<rparr>
                in (case http env req of
                      Inl (CodeMessageException code msg) \<Rightarrow>
                        if code = 404 \<or> code = 405 then (Inr (JDict [], query), [req])
                        else (Inr (JDict [], query), [req])
                    | Inl ex \<Rightarrow> (Inr (JDict [], query), [req])
                    | Inr response \<Rightarrow>
                        (case claim_missing response query of
                           Inl e \<Rightarrow> (Inl e, [req])
                         | Inr missing \<Rightarrow> (Inr (response, missing), [req]))))))"

subsection \<open>get_3pe_protocol and the response cache\<close>

type_synonym cache_key = "string \<times> string"

text \<open>
  An entry of the cache is the pending call of the producer (the closure \<^verbatim>\<open>_get\<close>, which
  holds the service it was created for) or a result with its expiry time in
  milliseconds.
\<close>

datatype cache_entry = Pending ApplicationService | Complete "json option" nat

type_synonym response_cache = "cache_key \<Rightarrow> cache_entry option"

text \<open>
  Modelled from the spec: \<^verbatim>\<open>ResponseCache\<close> (synapse/util/caches/response_cache.py), of
  which the sources hold only the construction with \<^verbatim>\<open>timeout_ms=HOUR_IN_MS\<close> and the call
  \<^verbatim>\<open>wrap(key, _get)\<close>. The spec: a live (non-expired) entry, or the pending call when one is
  in flight, is returned without invoking the producer again; otherwise the producer is
  invoked once and its result is stored with expiry now + TTL; entries are evicted
  lazily, on the next lookup past expiry. What \<^verbatim>\<open>wrap\<close> stores when the producer raises is
  not said; nothing is stored here.
\<close>

definition cache_lookup :: "response_cache \<Rightarrow> nat \<Rightarrow> cache_key \<Rightarrow> cache_entry option" where
  "cache_lookup c now key =
     (case c key of
        Some (Complete v expiry) \<Rightarrow> if now < expiry then Some (Complete v expiry) else None
      | e \<Rightarrow> e)"

text \<open>
  Modelled from the spec: the store of \<^verbatim>\<open>ResponseCache\<close>, "stores the result with an expiry
  timestamp = now + TTL", with the TTL the client configures, \<^verbatim>\<open>timeout_ms=HOUR_IN_MS\<close>.
\<close>

definition cache_store :: "response_cache \<Rightarrow> nat \<Rightarrow> cache_key \<Rightarrow> json option \<Rightarrow> response_cache" where
  "cache_store c now key v = c(key \<mapsto> Complete v (now + HOUR_IN_MS))"

datatype call_status = Returned "py_exception + json option" | Awaiting cache_key

text \<open>
  \<^verbatim>\<open>get_3pe_protocol\<close> up to its first suspension point: it returns at once (no URL, a live
  entry, a failed assertion), or awaits the pending call of its key, which it has found
  or started. The check of the URL, the key and the producer are the source's; what
  \<^verbatim>\<open>wrap\<close> does with them follows the spec, as above.
\<close>

definition get_3pe_protocol_begin ::
  "response_cache \<Rightarrow> nat \<Rightarrow> ApplicationService \<Rightarrow> string
     \<Rightarrow> call_status \<times> response_cache \<times> request list" where
  "get_3pe_protocol_begin c now service protocol =
     (case url service of
        None \<Rightarrow> (Returned (Inr (Some (JDict []))), c, [])
      | Some u \<Rightarrow>
          (let key = (service_id service, protocol)
           in (case cache_lookup c now key of
                 Some (Complete v expiry) \<Rightarrow> (Returned (Inr v), c, [])
               | Some (Pending producer) \<Rightarrow> (Awaiting key, c, [])
               | None \<Rightarrow>
                   (case get_3pe_protocol_request service u protocol of
                      Inl e \<Rightarrow> (Returned (Inl e), c(key := None), [])
                    | Inr req \<Rightarrow> (Awaiting key, c(key \<mapsto> Pending service), [req])))))"

text \<open>
  The rest of \<^verbatim>\<open>get_3pe_protocol\<close>, when the transport answers the pending call of a key:
  \<^verbatim>\<open>_get\<close> finishes and its result is stored. Without a pending call nothing happens.
\<close>

definition get_3pe_protocol_complete ::
  "collaborators \<Rightarrow> response_cache \<Rightarrow> nat \<Rightarrow> cache_key \<Rightarrow> py_exception + json
     \<Rightarrow> (json option) option \<times> response_cache" where
  "get_3pe_protocol_complete env c now key answer =
     (case c key of
        Some (Pending producer) \<Rightarrow>
          (let v = get_3pe_protocol_result env producer answer
           in (Some v, cache_store c now key v))
      | _ \<Rightarrow> (None, c))"

text \<open>
  Modelled from the spec: the scheduling of many \<^verbatim>\<open>get_3pe_protocol\<close> calls on one client.
  Concurrency is single-threaded and cooperative, and execution interleaves only at
  suspension points (the HTTP call, the wait on a pending producer), so calls run
  atomically between them and a run is a sequence of actions. A call is
  named by a number; \<open>sent\<close> logs the requests handed to the transport, with the key of
  the call that issued them.
\<close>

record system =
  clock :: nat
  cache :: response_cache
  awaiting :: "(nat \<times> cache_key) list"
  returned :: "nat \<Rightarrow> (py_exception + json option) option"
  sent :: "(cache_key \<times> request) list"

datatype action =
    Call nat ApplicationService string
  | Reply cache_key "py_exception + json"
  | Tick nat

fun step :: "collaborators \<Rightarrow> system \<Rightarrow> action \<Rightarrow> system" where
  "step env \<sigma> (Tick d) = \<sigma>\<lparr> clock := clock \<sigma> + d \<rparr>"
| "step env \<sigma> (Call n service protocol) =
     (case get_3pe_protocol_begin (cache \<sigma>) (clock \<sigma>) service protocol of
        (Returned r, c, reqs) \<Rightarrow>
          \<sigma>\<lparr> cache := c,
             returned := (returned \<sigma>)(n \<mapsto> r),
             sent := sent \<sigma> @ map (Pair (service_id service, protocol)) reqs \<rparr>
      | (Awaiting key, c, reqs) \<Rightarrow>
          \<sigma>\<lparr> cache := c,
             awaiting := awaiting \<sigma> @ [(n, key)],
             sent := sent \<sigma> @ map (Pair key) reqs \<rparr>)"
| "step env \<sigma> (Reply key answer) =
     (case get_3pe_protocol_complete env (cache \<sigma>) (clock \<sigma>) key answer of
        (None, c) \<Rightarrow> \<sigma>
      | (Some v, c) \<Rightarrow>
          \<sigma>\<lparr> cache := c,
             awaiting := filter (\<lambda>w. snd w \<noteq> key) (awaiting \<sigma>),
             returned := (\<lambda>n. if (n, key) \<in> set (awaiting \<sigma>) then Some (Inr v) else returned \<sigma> n) \<rparr>)"

definition run :: "collaborators \<Rightarrow> system \<Rightarrow> action list \<Rightarrow> system" where
  "run env \<sigma> acts = foldl (step env) \<sigma> acts"

definition initial :: system where
  "initial = \<lparr> clock = 0, cache = (\<lambda>key. None), awaiting = [], returned = (\<lambda>n. None), sent = [] \<rparr>"

fun is_reply_for :: "cache_key \<Rightarrow> action \<Rightarrow> bool" where
  "is_reply_for key (Reply key' answer) = (key' = key)"
| "is_reply_for key _ = False"

fun is_call_for :: "cache_key \<Rightarrow> action \<Rightarrow> bool" where
  "is_call_for key (Call n service protocol) = ((service_id service, protocol) = key)"
| "is_call_for key _ = False"

text \<open>
  In every state a run can reach from \<open>initial\<close>, a call awaits a key only while the
  producer of that key is pending.
\<close>

definition awaiting_pending :: "system \<Rightarrow> bool" where
  "awaiting_pending \<sigma> \<longleftrightarrow>
     list_all (\<lambda>w. case cache \<sigma> (snd w) of Some (Pending producer) \<Rightarrow> True | _ \<Rightarrow> False)
              (awaiting \<sigma>)"

definition sent_for :: "cache_key \<Rightarrow> system \<Rightarrow> request list" where
  "sent_for key \<sigma> = map snd (filter (\<lambda>p. fst p = key) (sent \<sigma>))"

subsection \<open>The properties as the specification words them\<close>

text \<open>
  A Third-Party Entity Result is valid when it is a mapping containing the required
  field with a string value, \<open>protocol\<close> with a string value and \<open>fields\<close> with a mapping
  value.
\<close>

definition spec_is_valid_3pe_result :: "json \<Rightarrow> string \<Rightarrow> bool" where
  "spec_is_valid_3pe_result obj required_field =
     (case obj of
        JDict m \<Rightarrow>
          (case map_of m required_field of Some (JStr s) \<Rightarrow> True | _ \<Rightarrow> False)
          \<and> (case map_of m ''protocol'' of Some (JStr s) \<Rightarrow> True | _ \<Rightarrow> False)
          \<and> (case map_of m ''fields'' of Some (JDict f) \<Rightarrow> True | _ \<Rightarrow> False)
      | _ \<Rightarrow> False)"

definition spec_required_field :: "string \<Rightarrow> string" where
  "spec_required_field kind = (if kind = ''user'' then ''userid'' else ''alias'')"

text \<open>
  A well-formed key-claim response maps user ids to mappings from device ids to
  mappings. A triple is fulfilled when the response contains that exact algorithm string
  in \<open>response[user][device]\<close>.
\<close>

definition well_formed_response :: "json \<Rightarrow> bool" where
  "well_formed_response response =
     (case response of
        JDict users \<Rightarrow>
          list_all (\<lambda>(user_id, devices).
                      (case devices of
                         JDict ds \<Rightarrow> list_all (\<lambda>(device, keys). isinstance_dict keys) ds
                       | _ \<Rightarrow> False))
                   users
      | _ \<Rightarrow> False)"

definition fulfilled :: "json \<Rightarrow> string \<times> string \<times> string \<Rightarrow> bool" where
  "fulfilled response t =
     (case t of (user_id, device, algorithm) \<Rightarrow>
        (case response of
           JDict users \<Rightarrow>
             (case map_of users user_id of
                Some (JDict ds) \<Rightarrow>
                  (case map_of ds device of
                     Some (JDict keys) \<Rightarrow> algorithm \<in> set (map fst keys)
                   | _ \<Rightarrow> False)
              | _ \<Rightarrow> False)
         | _ \<Rightarrow> False))"

subsection \<open>Fixtures for concrete runs\<close>

text \<open>A transport that gives every request the same answer, and a configured service.\<close>

definition answer_with :: "py_exception + json \<Rightarrow> collaborators" where
  "answer_with a =
     \<lparr> http = (\<lambda>req. a),
       time_msec = 0,
       serialize_event = (\<lambda>e time_now stripped. content e),
       is_interested_in_user = (\<lambda>service user_id. False),
       instance_id_to_string = (\<lambda>appservice_id network_id. appservice_id) \<rparr>"

definition example_service :: ApplicationService where
  "example_service =
     \<lparr> service_id = ''bridge'',
       url = Some ''http://as.example'',
       hs_token = Some ''secret'',
       supports_ephemeral = False,
       msc3202_transaction_extensions = False \<rparr>"

section \<open>Properties\<close>

subsection \<open>Key claims\<close>

lemma well_formed_devices:
  assumes "list_all (\<lambda>(user_id, devices). (case devices of JDict ds \<Rightarrow> list_all (\<lambda>(device, keys). isinstance_dict keys) ds | _ \<Rightarrow> False)) users"
    and "map_of users user_id = Some devices"
  shows "\<exists>ds. devices = JDict ds \<and> list_all (\<lambda>(device, keys). isinstance_dict keys) ds"
proof -
  from assms(2) have "(user_id, devices) \<in> set users" by (rule map_of_SomeD)
  with assms(1) show ?thesis
    by (auto simp: list_all_iff split: json.splits)
qed

lemma well_formed_keys:
  assumes "list_all (\<lambda>(device, keys). isinstance_dict keys) ds"
    and "map_of ds device = Some keys"
  shows "\<exists>ks. keys = JDict ks"
proof -
  from assms(2) have "(device, keys) \<in> set ds" by (rule map_of_SomeD)
  with assms(1) have "isinstance_dict keys" by (auto simp: list_all_iff)
  then show ?thesis by (cases keys) auto
qed

lemma claim_missing_step:
  assumes "well_formed_response response"
  shows "(case py_get response user_id (JDict []) of Inl e \<Rightarrow> Inl e
           | Inr devices \<Rightarrow> (case py_get devices device (JList []) of Inl e \<Rightarrow> Inl e
              | Inr keys \<Rightarrow> py_in algorithm keys)) = Inr (fulfilled response (user_id, device, algorithm))"
proof -
  from assms obtain users where r: "response = JDict users"
    and us: "list_all (\<lambda>(user_id, devices). (case devices of JDict ds \<Rightarrow> list_all (\<lambda>(device, keys). isinstance_dict keys) ds | _ \<Rightarrow> False)) users"
    by (auto simp: well_formed_response_def split: json.splits)
  show ?thesis
  proof (cases "map_of users user_id")
    case None
    then show ?thesis by (simp add: r fulfilled_def)
  next
    case (Some devices)
    from well_formed_devices[OF us Some] obtain ds where d: "devices = JDict ds"
      and dl: "list_all (\<lambda>(device, keys). isinstance_dict keys) ds" by blast
    show ?thesis
    proof (cases "map_of ds device")
      case None
      then show ?thesis using Some by (simp add: r d fulfilled_def)
    next
      case (Some keys)
      from well_formed_keys[OF dl Some] obtain ks where "keys = JDict ks" by blast
      then show ?thesis using Some \<open>map_of users user_id = Some devices\<close>
        by (simp add: r d fulfilled_def)
    qed
  qed
qed

lemma claim_missing_well_formed:
  assumes "well_formed_response response"
  shows "claim_missing response query = Inr (filter (\<lambda>t. \<not> fulfilled response t) query)"
proof (induction query)
  case Nil
  show ?case by simp
next
  case (Cons t rest)
  obtain user_id device algorithm where t: "t = (user_id, device, algorithm)"
    by (cases t) auto
  from claim_missing_step[OF assms, where user_id = user_id and device = device and algorithm = algorithm]
  show ?case using Cons.IH
    by (auto simp: t split: sum.splits)
qed

text \<open>
  C1. When the service has a URL and \<^verbatim>\<open>claim_client_keys\<close> receives a well-formed response
  to the request it issued, it returns that response together with exactly the triples
  of the query, in order and verbatim, whose algorithm is not contained in
  \<open>response[user][device]\<close>.
\<close>

theorem claim_client_keys_missing:
  assumes "url service = Some u"
    and "claim_client_keys env service query = (res, [req])"
    and "http env req = Inr response"
    and "well_formed_response response"
  shows "res = Inr (response, filter (\<lambda>t. \<not> fulfilled response t) query)"
  using assms
  by (auto simp: claim_client_keys_def Let_def claim_missing_well_formed
      split: option.splits sum.splits py_exception.splits if_splits)


theorem claim_client_keys_missing_witness:
  "url example_service = Some ''http://as.example''
   \<and> well_formed_response (JDict [(''@u1:hs'', JDict [(''d1'', JDict [(''alg1'', JDict [])])])])
   \<and> fst (claim_client_keys
            (answer_with (Inr (JDict [(''@u1:hs'', JDict [(''d1'', JDict [(''alg1'', JDict [])])])])))
            example_service [(''@u1:hs'', ''d1'', ''alg1''), (''@u1:hs'', ''d1'', ''alg2'')])
       = Inr (JDict [(''@u1:hs'', JDict [(''d1'', JDict [(''alg1'', JDict [])])])],
              [(''@u1:hs'', ''d1'', ''alg2'')])"
proof -
  let ?resp = "JDict [(''@u1:hs'', JDict [(''d1'', JDict [(''alg1'', JDict [])])])]"
  let ?q = "[(''@u1:hs'', ''d1'', ''alg1''), (''@u1:hs'', ''d1'', ''alg2'')]"
  let ?run = "claim_client_keys (answer_with (Inr ?resp)) example_service ?q"
  have h1: "url example_service = Some ''http://as.example''"
    by (simp add: example_service_def)
  have h2: "?run = (fst ?run, [hd (snd ?run)])"
    by (simp add: claim_client_keys_def example_service_def answer_with_def Let_def)
  have h3: "http (answer_with (Inr ?resp)) (hd (snd ?run)) = Inr ?resp"
    by (simp add: answer_with_def)
  have h4: "well_formed_response ?resp"
    by (simp add: well_formed_response_def)
  show ?thesis
    using h1 h4 claim_client_keys_missing [OF h1 h2 h3 h4]
    by (simp add: fulfilled_def)
qed

text \<open>
  C2. When the service has a URL and the HTTP call of \<^verbatim>\<open>claim_client_keys\<close> fails, with
  404, 405, any other code or any other exception, the result is the empty map together
  with the full original query, which is the value that was passed in.
\<close>

theorem claim_client_keys_failure:
  assumes "url service = Some u"
    and "claim_client_keys env service query = (res, [req])"
    and "http env req = Inl ex"
  shows "res = Inr (JDict [], query)"
  using assms
  by (auto simp: claim_client_keys_def Let_def
      split: option.splits sum.splits py_exception.splits if_splits)

theorem claim_client_keys_failure_witness:
  "url example_service = Some ''http://as.example''
   \<and> claim_client_keys (answer_with (Inl (CodeMessageException 404 ''Not found''))) example_service
         [(''@u1:hs'', ''d1'', ''alg1'')]
       = (Inr (JDict [], [(''@u1:hs'', ''d1'', ''alg1'')]),
          [\<lparr> http_verb = POST,
             uri = ''http://as.example/_matrix/app/unstable/org.matrix.msc3983/keys/claim'',
             args = [],
             json_body = Some (JDict [(''@u1:hs'', JDict [(''d1'', JList [JStr ''alg1''])])]),
             headers = [(''Authorization'', [''Bearer secret''])] \<rparr>])"
proof -
  let ?env = "answer_with (Inl (CodeMessageException 404 ''Not found''))"
  let ?run = "claim_client_keys ?env example_service [(''@u1:hs'', ''d1'', ''alg1'')]"
  have h1: "url example_service = Some ''http://as.example''"
    by (simp add: example_service_def)
  have h2: "?run = (fst ?run, [hd (snd ?run)])"
    by (simp add: claim_client_keys_def example_service_def answer_with_def Let_def)
  have h3: "http ?env (hd (snd ?run)) = Inl (CodeMessageException 404 ''Not found'')"
    by (simp add: answer_with_def)
  have tr: "snd ?run = [\<lparr> http_verb = POST,
             uri = ''http://as.example/_matrix/app/unstable/org.matrix.msc3983/keys/claim'',
             args = [],
             json_body = Some (JDict [(''@u1:hs'', JDict [(''d1'', JList [JStr ''alg1''])])]),
             headers = [(''Authorization'', [''Bearer secret''])] \<rparr>]"
    by (simp add: claim_client_keys_def example_service_def answer_with_def Let_def
        claim_body_add_def claim_body_json_def bearer_def)
  show ?thesis
    using h1 tr claim_client_keys_failure [OF h1 h2 h3]
    by (simp add: prod_eq_iff)
qed

text \<open>
  C10. For every service, with or without a URL, a kind other than \<open>user\<close> and \<open>location\<close>
  makes \<^verbatim>\<open>query_3pe\<close> raise ValueError without any request: the check of the kind comes
  before the check of the URL.
\<close>

theorem query_3pe_bad_kind:
  assumes "kind \<noteq> ''user''" and "kind \<noteq> ''location''"
  shows "query_3pe env service kind protocol flds = (Inl ValueError, [])"
  using assms
  by (simp add: query_3pe_def ThirdPartyEntityKind_USER_def ThirdPartyEntityKind_LOCATION_def)

theorem query_3pe_bad_kind_witness:
  "''room'' \<noteq> ''user'' \<and> ''room'' \<noteq> ''location''
   \<and> query_3pe (answer_with (Inr (JList [])))
        (example_service\<lparr> url := None \<rparr>) ''room'' ''irc'' [] = (Inl ValueError, [])"
proof -
  have h1: "''room'' \<noteq> ''user''" by simp
  have h2: "''room'' \<noteq> ''location''" by simp
  show ?thesis
    using h1 h2 query_3pe_bad_kind [OF h1 h2] by simp
qed

subsection \<open>Services without a URL\<close>

text \<open>
  C3. For every service whose URL is null, each operation returns its no-op default and
  issues no request: \<^verbatim>\<open>query_user\<close> and \<^verbatim>\<open>query_alias\<close> return false, \<^verbatim>\<open>query_3pe\<close> (for the
  kinds \<open>user\<close> and \<open>location\<close> of its signature) the empty list, \<^verbatim>\<open>get_3pe_protocol\<close> the
  empty object, leaving the cache as it was, \<^verbatim>\<open>push_bulk\<close> true and \<^verbatim>\<open>claim_client_keys\<close>
  the empty map with the query.
\<close>

theorem no_url_no_op:
  assumes "url service = None"
    and "kind = ''user'' \<or> kind = ''location''"
  shows "query_user env service user_id = (Inr False, [])
       \<and> query_alias env service alias = (Inr False, [])
       \<and> query_3pe env service kind protocol flds = (Inr [], [])
       \<and> get_3pe_protocol_begin c now service protocol = (Returned (Inr (Some (JDict []))), c, [])
       \<and> push_bulk env service events ephemeral to_device_messages one_time_keys_count
             unused_fallback_keys device_list_summary txn_id = (Inr True, [])
       \<and> claim_client_keys env service query = (Inr (JDict [], query), [])"
  using assms
  by (auto simp: query_user_def query_alias_def query_3pe_def get_3pe_protocol_begin_def
      push_bulk_def claim_client_keys_def
      ThirdPartyEntityKind_USER_def ThirdPartyEntityKind_LOCATION_def)

theorem no_url_no_op_witness:
  "url (example_service\<lparr> url := None \<rparr>) = None
   \<and> query_3pe (answer_with (Inr (JList []))) (example_service\<lparr> url := None \<rparr>) ''user'' ''irc'' []
       = (Inr [], [])
   \<and> claim_client_keys (answer_with (Inr (JDict []))) (example_service\<lparr> url := None \<rparr>)
         [(''@u1:hs'', ''d1'', ''alg1'')]
       = (Inr (JDict [], [(''@u1:hs'', ''d1'', ''alg1'')]), [])"
proof -
  have h1: "url (example_service\<lparr> url := None \<rparr>) = None" by simp
  have h2: "''user'' = ''user'' \<or> ''user'' = ''location''" by simp
  have q: "query_3pe (answer_with (Inr (JList []))) (example_service\<lparr> url := None \<rparr>) ''user'' ''irc'' []
       = (Inr [], [])"
    using no_url_no_op [OF h1 h2] by blast
  have k: "claim_client_keys (answer_with (Inr (JDict []))) (example_service\<lparr> url := None \<rparr>)
         [(''@u1:hs'', ''d1'', ''alg1'')]
       = (Inr (JDict [], [(''@u1:hs'', ''d1'', ''alg1'')]), [])"
    using no_url_no_op [OF h1 h2] by blast
  show ?thesis using h1 q k by simp
qed

subsection \<open>Existence queries\<close>

text \<open>
  A successful call whose body is the JSON value \<^verbatim>\<open>null\<close> decodes to \<^verbatim>\<open>None\<close>, and the guard
  \<^verbatim>\<open>if response is not None\<close> sends the coroutine to its final \<^verbatim>\<open>return False\<close>.
\<close>

theorem query_user_null_body_counterexample:
  "query_user (answer_with (Inr JNull)) example_service ''@alice:hs''
     = (Inr False,
        [\<lparr> http_verb = GET,
           uri = ''http://as.example/users/%40alice%3Ahs'',
           args = [(''access_token'', ArgStr ''secret'')],
           json_body = None,
           headers = [(''Authorization'', [''Bearer secret''])] \<rparr>])
   \<and> http (answer_with (Inr JNull))
         \<lparr> http_verb = GET,
           uri = ''http://as.example/users/%40alice%3Ahs'',
           args = [(''access_token'', ArgStr ''secret'')],
           json_body = None,
           headers = [(''Authorization'', [''Bearer secret''])] \<rparr> = Inr JNull"
  by (simp add: query_user_def example_service_def answer_with_def bearer_def quote_def
      quote_byte_def always_safe_def hex_digit_def)

lemma query_user_answered:
  assumes "snd (query_user env service user_id) = [req]"
  shows "fst (query_user env service user_id)
           = Inr (case http env req of Inr response \<Rightarrow> response \<noteq> JNull | Inl ex \<Rightarrow> False)"
  using assms
  by (auto simp: query_user_def Let_def split: option.splits sum.splits py_exception.splits if_splits)

lemma query_alias_answered:
  assumes "snd (query_alias env service room_alias) = [req]"
  shows "fst (query_alias env service room_alias)
           = Inr (case http env req of Inr response \<Rightarrow> response \<noteq> JNull | Inl ex \<Rightarrow> False)"
  using assms
  by (auto simp: query_alias_def Let_def split: option.splits sum.splits py_exception.splits if_splits)

lemma query_user_requests:
  "url service \<noteq> None \<Longrightarrow> fst (query_user env service user_id) = Inr True
     \<Longrightarrow> \<exists>req. snd (query_user env service user_id) = [req]"
  by (auto simp: query_user_def Let_def split: option.splits sum.splits py_exception.splits if_splits)

lemma query_alias_requests:
  "url service \<noteq> None \<Longrightarrow> fst (query_alias env service room_alias) = Inr True
     \<Longrightarrow> \<exists>req. snd (query_alias env service room_alias) = [req]"
  by (auto simp: query_alias_def Let_def split: option.splits sum.splits py_exception.splits if_splits)

text \<open>
  C4, as the code has it. For every service with a URL, \<^verbatim>\<open>query_user\<close> and \<^verbatim>\<open>query_alias\<close>
  return true exactly when the request they issued succeeds with a body other than JSON
  \<^verbatim>\<open>null\<close>, return false when it succeeds with the body \<^verbatim>\<open>null\<close>, and return false when the
  request fails, with 404 or with any other error.
\<close>

theorem query_exists_iff:
  assumes "url service = Some u"
  shows "(fst (query_user env service user_id) = Inr True \<longleftrightarrow>
            (\<exists>req response. snd (query_user env service user_id) = [req]
               \<and> http env req = Inr response \<and> response \<noteq> JNull))
       \<and> (\<forall>req ex. snd (query_user env service user_id) = [req] \<and> http env req = Inl ex
             \<longrightarrow> fst (query_user env service user_id) = Inr False)
       \<and> (fst (query_alias env service alias) = Inr True \<longleftrightarrow>
            (\<exists>req response. snd (query_alias env service alias) = [req]
               \<and> http env req = Inr response \<and> response \<noteq> JNull))
       \<and> (\<forall>req ex. snd (query_alias env service alias) = [req] \<and> http env req = Inl ex
             \<longrightarrow> fst (query_alias env service alias) = Inr False)
       \<and> (\<forall>req. snd (query_user env service user_id) = [req] \<and> http env req = Inr JNull
             \<longrightarrow> fst (query_user env service user_id) = Inr False)
       \<and> (\<forall>req. snd (query_alias env service alias) = [req] \<and> http env req = Inr JNull
             \<longrightarrow> fst (query_alias env service alias) = Inr False)"
proof -
  from assms have set: "url service \<noteq> None" by simp
  have a: "fst (query_user env service user_id) = Inr True \<longleftrightarrow>
            (\<exists>req response. snd (query_user env service user_id) = [req]
               \<and> http env req = Inr response \<and> response \<noteq> JNull)"
  proof
    assume t: "fst (query_user env service user_id) = Inr True"
    from query_user_requests [OF set t] obtain req
      where r: "snd (query_user env service user_id) = [req]" by blast
    from query_user_answered [OF r] t
    have "\<exists>response. http env req = Inr response \<and> response \<noteq> JNull"
      by (cases "http env req") simp_all
    with r show "\<exists>req response. snd (query_user env service user_id) = [req]
               \<and> http env req = Inr response \<and> response \<noteq> JNull" by blast
  next
    assume "\<exists>req response. snd (query_user env service user_id) = [req]
               \<and> http env req = Inr response \<and> response \<noteq> JNull"
    then obtain req response where r: "snd (query_user env service user_id) = [req]"
      and h: "http env req = Inr response" "response \<noteq> JNull" by blast
    from query_user_answered [OF r] h show "fst (query_user env service user_id) = Inr True"
      by simp
  qed
  have b: "\<forall>req ex. snd (query_user env service user_id) = [req] \<and> http env req = Inl ex
             \<longrightarrow> fst (query_user env service user_id) = Inr False"
    by (auto dest: query_user_answered)
  have c: "fst (query_alias env service alias) = Inr True \<longleftrightarrow>
            (\<exists>req response. snd (query_alias env service alias) = [req]
               \<and> http env req = Inr response \<and> response \<noteq> JNull)"
  proof
    assume t: "fst (query_alias env service alias) = Inr True"
    from query_alias_requests [OF set t] obtain req
      where r: "snd (query_alias env service alias) = [req]" by blast
    from query_alias_answered [OF r] t
    have "\<exists>response. http env req = Inr response \<and> response \<noteq> JNull"
      by (cases "http env req") simp_all
    with r show "\<exists>req response. snd (query_alias env service alias) = [req]
               \<and> http env req = Inr response \<and> response \<noteq> JNull" by blast
  next
    assume "\<exists>req response. snd (query_alias env service alias) = [req]
               \<and> http env req = Inr response \<and> response \<noteq> JNull"
    then obtain req response where r: "snd (query_alias env service alias) = [req]"
      and h: "http env req = Inr response" "response \<noteq> JNull" by blast
    from query_alias_answered [OF r] h show "fst (query_alias env service alias) = Inr True"
      by simp
  qed
  have d: "\<forall>req ex. snd (query_alias env service alias) = [req] \<and> http env req = Inl ex
             \<longrightarrow> fst (query_alias env service alias) = Inr False"
    by (auto dest: query_alias_answered)
  have e: "\<forall>req. snd (query_user env service user_id) = [req] \<and> http env req = Inr JNull
             \<longrightarrow> fst (query_user env service user_id) = Inr False"
    by (auto dest: query_user_answered)
  have f: "\<forall>req. snd (query_alias env service alias) = [req] \<and> http env req = Inr JNull
             \<longrightarrow> fst (query_alias env service alias) = Inr False"
    by (auto dest: query_alias_answered)
  from a b c d e f show ?thesis by blast
qed

theorem query_exists_iff_witness:
  "url example_service = Some ''http://as.example''
   \<and> fst (query_user (answer_with (Inr (JDict []))) example_service ''@alice:hs'') = Inr True
   \<and> fst (query_alias (answer_with (Inl (CodeMessageException 404 ''Not found''))) example_service
            ''#room:hs'') = Inr False
   \<and> fst (query_user (answer_with (Inr JNull)) example_service ''@alice:hs'') = Inr False
   \<and> fst (query_alias (answer_with (Inr JNull)) example_service ''#room:hs'') = Inr False"
proof -
  let ?ok = "answer_with (Inr (JDict []))"
  let ?nf = "answer_with (Inl (CodeMessageException 404 ''Not found''))"
  let ?null = "answer_with (Inr JNull)"
  have h1: "url example_service = Some ''http://as.example''"
    by (simp add: example_service_def)
  have "\<exists>req response. snd (query_user ?ok example_service ''@alice:hs'') = [req]
          \<and> http ?ok req = Inr response \<and> response \<noteq> JNull"
    by (simp add: query_user_def example_service_def answer_with_def)
  then have t: "fst (query_user ?ok example_service ''@alice:hs'') = Inr True"
    using query_exists_iff [OF h1, of ?ok "''@alice:hs''", THEN conjunct1] by blast
  have "\<exists>req ex. snd (query_alias ?nf example_service ''#room:hs'') = [req] \<and> http ?nf req = Inl ex"
    by (simp add: query_alias_def example_service_def answer_with_def)
  then have f: "fst (query_alias ?nf example_service ''#room:hs'') = Inr False"
    using query_exists_iff [OF h1, of ?nf _ "''#room:hs''", THEN conjunct2, THEN conjunct2,
        THEN conjunct2, THEN conjunct1]
    by blast
  have "\<exists>req. snd (query_user ?null example_service ''@alice:hs'') = [req] \<and> http ?null req = Inr JNull"
    by (simp add: query_user_def example_service_def answer_with_def)
  then have nu: "fst (query_user ?null example_service ''@alice:hs'') = Inr False"
    using query_exists_iff [OF h1, of ?null "''@alice:hs''", THEN conjunct2, THEN conjunct2,
        THEN conjunct2, THEN conjunct2, THEN conjunct1]
    by blast
  have "\<exists>req. snd (query_alias ?null example_service ''#room:hs'') = [req] \<and> http ?null req = Inr JNull"
    by (simp add: query_alias_def example_service_def answer_with_def)
  then have na: "fst (query_alias ?null example_service ''#room:hs'') = Inr False"
    using query_exists_iff [OF h1, of ?null _ "''#room:hs''", THEN conjunct2, THEN conjunct2,
        THEN conjunct2, THEN conjunct2, THEN conjunct2]
    by blast
  from h1 t f nu na show ?thesis by simp
qed

subsection \<open>Transactions\<close>

lemma push_bulk_body_ephemeral:
  assumes "supports_ephemeral service"
  shows "map_of (push_bulk_body service evs ephemeral to_device_messages otk ufk dls)
           ''de.sorunome.msc2409.ephemeral'' = Some (JList ephemeral)"
    and "map_of (push_bulk_body service evs ephemeral to_device_messages otk ufk dls)
           ''de.sorunome.msc2409.to_device'' = Some (JList to_device_messages)"
  using assms
  by (simp_all add: push_bulk_body_def Let_def AList.update_conv')

lemma push_bulk_body_no_ephemeral:
  assumes "\<not> supports_ephemeral service"
  shows "map_of (push_bulk_body service evs ephemeral to_device_messages otk ufk dls)
           ''de.sorunome.msc2409.ephemeral'' = None"
    and "map_of (push_bulk_body service evs ephemeral to_device_messages otk ufk dls)
           ''de.sorunome.msc2409.to_device'' = None"
  using assms
  by (simp_all add: push_bulk_body_def Let_def AList.update_conv')

text \<open>
  C5. For every service with a URL, the body of every transaction \<^verbatim>\<open>push_bulk\<close> sends (one,
  when the token is set) holds neither the ephemeral nor the to-device field when
  \<open>supports_ephemeral\<close> is false, whatever lists were supplied, and holds both, with the
  supplied lists, when it is true.
\<close>

theorem push_bulk_ephemeral_fields:
  assumes "url service = Some u"
  shows "(hs_token service \<noteq> None \<longrightarrow>
            length (snd (push_bulk env service events ephemeral to_device_messages
                           one_time_keys_count unused_fallback_keys device_list_summary txn_id)) = 1)
       \<and> (\<forall>req \<in> set (snd (push_bulk env service events ephemeral to_device_messages
                              one_time_keys_count unused_fallback_keys device_list_summary txn_id)).
             \<exists>body. json_body req = Some (JDict body)
               \<and> (if supports_ephemeral service
                   then map_of body ''de.sorunome.msc2409.ephemeral'' = Some (JList ephemeral)
                        \<and> map_of body ''de.sorunome.msc2409.to_device'' = Some (JList to_device_messages)
                   else ''de.sorunome.msc2409.ephemeral'' \<notin> set (map fst body)
                        \<and> ''de.sorunome.msc2409.to_device'' \<notin> set (map fst body)))"
proof -
  let ?body = "push_bulk_body service (serialize env service events) ephemeral to_device_messages
                 one_time_keys_count unused_fallback_keys device_list_summary"
  have fields: "if supports_ephemeral service
                   then map_of ?body ''de.sorunome.msc2409.ephemeral'' = Some (JList ephemeral)
                        \<and> map_of ?body ''de.sorunome.msc2409.to_device'' = Some (JList to_device_messages)
                   else ''de.sorunome.msc2409.ephemeral'' \<notin> set (map fst ?body)
                        \<and> ''de.sorunome.msc2409.to_device'' \<notin> set (map fst ?body)"
  proof (cases "supports_ephemeral service")
    case True
    then show ?thesis
      using push_bulk_body_ephemeral [of service] by simp
  next
    case False
    then show ?thesis
      using push_bulk_body_no_ephemeral [of service]
      by (simp add: map_of_eq_None_iff [symmetric])
  qed
  let ?trace = "snd (push_bulk env service events ephemeral to_device_messages
                        one_time_keys_count unused_fallback_keys device_list_summary txn_id)"
  have len: "hs_token service \<noteq> None \<longrightarrow> length ?trace = 1"
    using assms by (auto simp: push_bulk_def Let_def split: sum.splits)
  have sent: "\<forall>req \<in> set ?trace. json_body req = Some (JDict ?body)"
    using assms by (auto simp: push_bulk_def Let_def split: option.splits sum.splits)
  show ?thesis
  proof (intro conjI ballI)
    show "hs_token service \<noteq> None \<longrightarrow> length ?trace = 1" by (rule len)
  next
    fix req
    assume "req \<in> set ?trace"
    with sent have "json_body req = Some (JDict ?body)" by blast
    with fields show "\<exists>body. json_body req = Some (JDict body)
               \<and> (if supports_ephemeral service
                   then map_of body ''de.sorunome.msc2409.ephemeral'' = Some (JList ephemeral)
                        \<and> map_of body ''de.sorunome.msc2409.to_device'' = Some (JList to_device_messages)
                   else ''de.sorunome.msc2409.ephemeral'' \<notin> set (map fst body)
                        \<and> ''de.sorunome.msc2409.to_device'' \<notin> set (map fst body))"
      by (intro exI [of _ ?body]) simp
  qed
qed

theorem push_bulk_ephemeral_fields_witness:
  "url example_service = Some ''http://as.example''
   \<and> hs_token example_service \<noteq> None
   \<and> \<not> supports_ephemeral example_service
   \<and> map json_body
        (snd (push_bulk (answer_with (Inr (JDict []))) example_service []
                [JDict [(''type'', JStr ''m.typing'')]] [JDict [(''type'', JStr ''m.room_key'')]]
                [] [] \<lparr> changed = [], left = [] \<rparr> (Some 7)))
       = [Some (JDict [(''events'', JList [])])]"
proof -
  let ?trace = "snd (push_bulk (answer_with (Inr (JDict []))) example_service []
                [JDict [(''type'', JStr ''m.typing'')]] [JDict [(''type'', JStr ''m.room_key'')]]
                [] [] \<lparr> changed = [], left = [] \<rparr> (Some 7))"
  have h1: "url example_service = Some ''http://as.example''"
    by (simp add: example_service_def)
  have h2: "hs_token example_service \<noteq> None" and h3: "\<not> supports_ephemeral example_service"
    by (simp_all add: example_service_def)
  have "length ?trace = 1"
    using h2 push_bulk_ephemeral_fields [OF h1] by blast
  moreover have "map json_body ?trace = [Some (JDict [(''events'', JList [])])]"
    by (simp add: push_bulk_def push_bulk_body_def serialize_def example_service_def
        answer_with_def Let_def)
  ultimately show ?thesis using h1 h2 h3 by simp
qed

subsection \<open>Third-party entity queries\<close>

lemma is_valid_3pe_result_spec:
  "is_valid_3pe_result r field = spec_is_valid_3pe_result r field"
  by (cases r) (auto simp: spec_is_valid_3pe_result_def split: option.splits json.splits)

lemma query_3pe_loop_filter:
  "query_3pe_loop field rs ret = ret @ filter (\<lambda>r. is_valid_3pe_result r field) rs"
  by (induction rs arbitrary: ret) simp_all

text \<open>
  C6. For every service with a URL and every response to the request \<^verbatim>\<open>query_3pe\<close> issued,
  the result is the list of exactly those elements of the response list, in order, that
  are mappings with the required field (\<open>userid\<close> for kind user, \<open>alias\<close> for kind
  location) and \<open>protocol\<close> string-valued and \<open>fields\<close> a mapping; a response that is not a
  list yields the empty list.
\<close>

theorem query_3pe_valid_results:
  assumes "url service = Some u"
    and "query_3pe env service kind protocol flds = (res, [req])"
    and "http env req = Inr response"
  shows "(kind = ''user'' \<or> kind = ''location'')
       \<and> res = Inr (case response of
                      JList rs \<Rightarrow> filter (\<lambda>r. spec_is_valid_3pe_result r (spec_required_field kind)) rs
                    | _ \<Rightarrow> [])"
proof -
  from assms(2) have kind: "kind = ''user'' \<or> kind = ''location''"
    by (auto simp: query_3pe_def ThirdPartyEntityKind_USER_def ThirdPartyEntityKind_LOCATION_def
        split: if_splits)
  from assms(1,2) obtain tok where tok: "hs_token service = Some tok"
    using kind
    by (cases "hs_token service")
       (auto simp: query_3pe_def ThirdPartyEntityKind_USER_def ThirdPartyEntityKind_LOCATION_def)
  have "res = Inr (case response of
                      JList rs \<Rightarrow> filter (\<lambda>r. spec_is_valid_3pe_result r (spec_required_field kind)) rs
                    | _ \<Rightarrow> [])"
    using assms kind tok
    by (auto simp: query_3pe_def ThirdPartyEntityKind_USER_def ThirdPartyEntityKind_LOCATION_def
        Let_def query_3pe_loop_filter is_valid_3pe_result_spec spec_required_field_def
        split: sum.splits json.splits)
  with kind show ?thesis by blast
qed

theorem query_3pe_valid_results_witness:
  "url example_service = Some ''http://as.example''
   \<and> fst (query_3pe
            (answer_with (Inr (JList
               [JDict [(''userid'', JStr ''@_irc_bob:hs''), (''protocol'', JStr ''irc''),
                       (''fields'', JDict [(''nick'', JStr ''bob'')])],
                JDict [(''userid'', JStr ''@_irc_eve:hs''), (''protocol'', JStr ''irc'')]])))
            example_service ''user'' ''irc'' [])
       = Inr [JDict [(''userid'', JStr ''@_irc_bob:hs''), (''protocol'', JStr ''irc''),
                     (''fields'', JDict [(''nick'', JStr ''bob'')])]]"
proof -
  let ?resp = "JList
               [JDict [(''userid'', JStr ''@_irc_bob:hs''), (''protocol'', JStr ''irc''),
                       (''fields'', JDict [(''nick'', JStr ''bob'')])],
                JDict [(''userid'', JStr ''@_irc_eve:hs''), (''protocol'', JStr ''irc'')]]"
  let ?run = "query_3pe (answer_with (Inr ?resp)) example_service ''user'' ''irc'' []"
  have h1: "url example_service = Some ''http://as.example''"
    by (simp add: example_service_def)
  have h2: "?run = (fst ?run, [hd (snd ?run)])"
    by (simp add: query_3pe_def example_service_def answer_with_def Let_def
        ThirdPartyEntityKind_USER_def)
  have h3: "http (answer_with (Inr ?resp)) (hd (snd ?run)) = Inr ?resp"
    by (simp add: answer_with_def)
  show ?thesis
    using h1 query_3pe_valid_results [OF h1 h2 h3]
    by (simp add: spec_is_valid_3pe_result_def spec_required_field_def)
qed

subsection \<open>ping\<close>

text \<open>
  The endpoint of \<^verbatim>\<open>ping\<close> carries the vendor prefix of the unstable MSC:
  \<^verbatim>\<open>/_matrix/app/unstable/fi.mau.msc2659/ping\<close>, not \<^verbatim>\<open>/_matrix/app/unstable/msc2659/ping\<close>.
\<close>

theorem ping_endpoint_counterexample:
  "map uri (snd (ping (answer_with (Inr (JDict []))) example_service (Some ''txn1'')))
     = [''http://as.example/_matrix/app/unstable/fi.mau.msc2659/ping'']
   \<and> map uri (snd (ping (answer_with (Inr (JDict []))) example_service (Some ''txn1'')))
     \<noteq> [''http://as.example/_matrix/app/unstable/msc2659/ping'']"
  by (simp add: ping_def example_service_def answer_with_def)

lemma ping_requests:
  "\<forall>req \<in> set (snd (ping env service txn_id)).
      \<exists>u tok. url service = Some u \<and> hs_token service = Some tok
        \<and> req = \<lparr> http_verb = POST,
                   uri = u @ ''/_matrix/app/unstable/fi.mau.msc2659/ping'',
                   args = [],
                   json_body = Some (JDict [(''transaction_id'',
                                            (case txn_id of None \<Rightarrow> JNull | Some t \<Rightarrow> JStr t))]),
                   headers = bearer tok \<rparr>"
  by (auto simp: ping_def Let_def split: option.splits sum.splits)

lemma ping_once:
  "url service \<noteq> None \<and> hs_token service \<noteq> None \<longrightarrow> length (snd (ping env service txn_id)) = 1"
  by (auto simp: ping_def Let_def split: option.splits sum.splits)

lemma ping_raises:
  "snd (ping env service txn_id) = [req] \<and> http env req = Inl ex
     \<longrightarrow> fst (ping env service txn_id) = Inl ex"
  by (auto simp: ping_def Let_def split: option.splits sum.splits)

lemma query_user_swallows:
  "snd (query_user env service user_id) = [req] \<and> http env req = Inl ex
     \<longrightarrow> fst (query_user env service user_id) = Inr False"
  by (auto simp: query_user_def Let_def split: option.splits sum.splits py_exception.splits if_splits)

lemma query_alias_swallows:
  "snd (query_alias env service alias) = [req] \<and> http env req = Inl ex
     \<longrightarrow> fst (query_alias env service alias) = Inr False"
  by (auto simp: query_alias_def Let_def split: option.splits sum.splits py_exception.splits if_splits)

lemma query_3pe_swallows:
  "snd (query_3pe env service kind protocol flds) = [req] \<and> http env req = Inl ex
     \<longrightarrow> fst (query_3pe env service kind protocol flds) = Inr []"
  by (auto simp: query_3pe_def Let_def split: option.splits sum.splits json.splits if_splits)

lemma get_3pe_protocol_get_swallows:
  "snd (get_3pe_protocol_get env service u protocol) = [req] \<and> http env req = Inl ex
     \<longrightarrow> fst (get_3pe_protocol_get env service u protocol) = Inr None"
  by (auto simp: get_3pe_protocol_get_def get_3pe_protocol_request_def get_3pe_protocol_result_def
      split: option.splits sum.splits)

lemma push_bulk_swallows:
  "snd (push_bulk env service events ephemeral to_device_messages one_time_keys_count
          unused_fallback_keys device_list_summary txn_id) = [req] \<and> http env req = Inl ex
     \<longrightarrow> fst (push_bulk env service events ephemeral to_device_messages one_time_keys_count
               unused_fallback_keys device_list_summary txn_id) = Inr False"
  by (auto simp: push_bulk_def Let_def split: option.splits sum.splits)

lemma claim_client_keys_swallows:
  "snd (claim_client_keys env service query) = [req] \<and> http env req = Inl ex
     \<longrightarrow> fst (claim_client_keys env service query) = Inr (JDict [], query)"
  by (auto simp: claim_client_keys_def Let_def
      split: option.splits sum.splits py_exception.splits if_splits)

text \<open>
  C7, as the code has it. For every service and optional transaction id, every request
  \<^verbatim>\<open>ping\<close> issues (exactly one when URL and token are set) is a POST with JSON body
  \<open>{transaction_id}\<close> to \<open>{url}/_matrix/app/unstable/fi.mau.msc2659/ping\<close>, and an error of
  that call is raised to the caller. Every other operation turns an error of its call
  into its default return value.
\<close>

theorem ping_propagates_errors:
  "(\<forall>req \<in> set (snd (ping env service txn_id)).
      \<exists>u tok. url service = Some u \<and> hs_token service = Some tok
        \<and> req = \<lparr> http_verb = POST,
                   uri = u @ ''/_matrix/app/unstable/fi.mau.msc2659/ping'',
                   args = [],
                   json_body = Some (JDict [(''transaction_id'',
                                            (case txn_id of None \<Rightarrow> JNull | Some t \<Rightarrow> JStr t))]),
                   headers = bearer tok \<rparr>)
   \<and> (url service \<noteq> None \<and> hs_token service \<noteq> None \<longrightarrow> length (snd (ping env service txn_id)) = 1)
   \<and> (\<forall>req ex. snd (ping env service txn_id) = [req] \<and> http env req = Inl ex
         \<longrightarrow> fst (ping env service txn_id) = Inl ex)
   \<and> (\<forall>req ex. snd (query_user env service user_id) = [req] \<and> http env req = Inl ex
         \<longrightarrow> fst (query_user env service user_id) = Inr False)
   \<and> (\<forall>req ex. snd (query_alias env service alias) = [req] \<and> http env req = Inl ex
         \<longrightarrow> fst (query_alias env service alias) = Inr False)
   \<and> (\<forall>req ex. snd (query_3pe env service kind protocol flds) = [req] \<and> http env req = Inl ex
         \<longrightarrow> fst (query_3pe env service kind protocol flds) = Inr [])
   \<and> (\<forall>req ex. snd (get_3pe_protocol_get env service u protocol) = [req] \<and> http env req = Inl ex
         \<longrightarrow> fst (get_3pe_protocol_get env service u protocol) = Inr None)
   \<and> (\<forall>req ex. snd (push_bulk env service events ephemeral to_device_messages one_time_keys_count
                       unused_fallback_keys device_list_summary txn) = [req] \<and> http env req = Inl ex
         \<longrightarrow> fst (push_bulk env service events ephemeral to_device_messages one_time_keys_count
                    unused_fallback_keys device_list_summary txn) = Inr False)
   \<and> (\<forall>req ex. snd (claim_client_keys env service query) = [req] \<and> http env req = Inl ex
         \<longrightarrow> fst (claim_client_keys env service query) = Inr (JDict [], query))"
  using ping_requests [of env service txn_id] ping_once [of service env txn_id]
    ping_raises [of env service txn_id] query_user_swallows [of env service user_id]
    query_alias_swallows [of env service "alias"] query_3pe_swallows [of env service kind protocol flds]
    get_3pe_protocol_get_swallows [of env service u protocol]
    push_bulk_swallows [of env service events ephemeral to_device_messages one_time_keys_count
       unused_fallback_keys device_list_summary txn]
    claim_client_keys_swallows [of env service query]
  by blast

theorem ping_propagates_errors_witness:
  "ping (answer_with (Inl (CodeMessageException 502 ''Bad gateway''))) example_service None
     = (Inl (CodeMessageException 502 ''Bad gateway''),
        [\<lparr> http_verb = POST,
           uri = ''http://as.example/_matrix/app/unstable/fi.mau.msc2659/ping'',
           args = [],
           json_body = Some (JDict [(''transaction_id'', JNull)]),
           headers = [(''Authorization'', [''Bearer secret''])] \<rparr>])"
proof -
  let ?env = "answer_with (Inl (CodeMessageException 502 ''Bad gateway''))"
  let ?run = "ping ?env example_service None"
  have cfg: "url example_service \<noteq> None \<and> hs_token example_service \<noteq> None"
    by (simp add: example_service_def)
  have len: "length (snd ?run) = 1"
    using cfg ping_propagates_errors [of ?env example_service None, THEN conjunct2, THEN conjunct1]
    by blast
  then obtain req where tr: "snd ?run = [req]"
    by (cases "snd ?run") auto
  then have req: "req = \<lparr> http_verb = POST,
           uri = ''http://as.example/_matrix/app/unstable/fi.mau.msc2659/ping'',
           args = [],
           json_body = Some (JDict [(''transaction_id'', JNull)]),
           headers = [(''Authorization'', [''Bearer secret''])] \<rparr>"
    by (simp add: ping_def example_service_def answer_with_def bearer_def)
  have "http ?env req = Inl (CodeMessageException 502 ''Bad gateway'')"
    by (simp add: answer_with_def)
  with tr have "fst ?run = Inl (CodeMessageException 502 ''Bad gateway'')"
    using ping_propagates_errors [of ?env example_service None, THEN conjunct2, THEN conjunct2,
        THEN conjunct1]
    by blast
  with tr req show ?thesis by (simp add: prod_eq_iff)
qed

subsection \<open>The token assertion\<close>

lemma query_user_needs_token:
  "snd (query_user env service user_id) \<noteq> [] \<Longrightarrow> hs_token service \<noteq> None"
  by (auto simp: query_user_def split: option.splits)

lemma query_user_sends_once:
  "url service \<noteq> None \<Longrightarrow> hs_token service \<noteq> None
     \<Longrightarrow> length (snd (query_user env service user_id)) = 1"
  by (auto simp: query_user_def Let_def split: option.splits sum.splits py_exception.splits)

lemma query_user_asserts:
  "url service \<noteq> None \<Longrightarrow> hs_token service = None
     \<Longrightarrow> query_user env service user_id = (Inl AssertionError, [])"
  by (auto simp: query_user_def)

lemma query_alias_needs_token:
  "snd (query_alias env service room_alias) \<noteq> [] \<Longrightarrow> hs_token service \<noteq> None"
  by (auto simp: query_alias_def split: option.splits)

lemma query_alias_sends_once:
  "url service \<noteq> None \<Longrightarrow> hs_token service \<noteq> None
     \<Longrightarrow> length (snd (query_alias env service room_alias)) = 1"
  by (auto simp: query_alias_def Let_def split: option.splits sum.splits py_exception.splits)

lemma query_alias_asserts:
  "url service \<noteq> None \<Longrightarrow> hs_token service = None
     \<Longrightarrow> query_alias env service room_alias = (Inl AssertionError, [])"
  by (auto simp: query_alias_def)

lemma query_3pe_needs_token:
  "snd (query_3pe env service kind protocol flds) \<noteq> [] \<Longrightarrow> hs_token service \<noteq> None"
  by (auto simp: query_3pe_def split: option.splits if_splits)

lemma query_3pe_sends_once:
  "kind = ''user'' \<or> kind = ''location'' \<Longrightarrow> url service \<noteq> None \<Longrightarrow> hs_token service \<noteq> None
     \<Longrightarrow> length (snd (query_3pe env service kind protocol flds)) = 1"
  by (auto simp: query_3pe_def Let_def ThirdPartyEntityKind_USER_def ThirdPartyEntityKind_LOCATION_def
      split: option.splits sum.splits json.splits)

lemma query_3pe_asserts:
  "kind = ''user'' \<or> kind = ''location'' \<Longrightarrow> url service \<noteq> None \<Longrightarrow> hs_token service = None
     \<Longrightarrow> query_3pe env service kind protocol flds = (Inl AssertionError, [])"
  by (auto simp: query_3pe_def ThirdPartyEntityKind_USER_def ThirdPartyEntityKind_LOCATION_def)

lemma get_3pe_protocol_get_needs_token:
  "snd (get_3pe_protocol_get env service u protocol) \<noteq> [] \<Longrightarrow> hs_token service \<noteq> None"
  by (auto simp: get_3pe_protocol_get_def get_3pe_protocol_request_def split: option.splits)

lemma get_3pe_protocol_get_sends_once:
  "hs_token service \<noteq> None \<Longrightarrow> length (snd (get_3pe_protocol_get env service u protocol)) = 1"
  by (auto simp: get_3pe_protocol_get_def get_3pe_protocol_request_def split: option.splits)

lemma get_3pe_protocol_get_asserts:
  "hs_token service = None \<Longrightarrow> get_3pe_protocol_get env service u protocol = (Inl AssertionError, [])"
  by (auto simp: get_3pe_protocol_get_def get_3pe_protocol_request_def)

lemma ping_needs_token:
  "snd (ping env service txn_id) \<noteq> [] \<Longrightarrow> hs_token service \<noteq> None"
  by (auto simp: ping_def split: option.splits)

lemma ping_asserts:
  "url service \<noteq> None \<Longrightarrow> hs_token service = None
     \<Longrightarrow> ping env service txn_id = (Inl AssertionError, [])"
  by (auto simp: ping_def)

lemma push_bulk_needs_token:
  "snd (push_bulk env service events ephemeral to_device_messages one_time_keys_count
          unused_fallback_keys device_list_summary txn) \<noteq> [] \<Longrightarrow> hs_token service \<noteq> None"
  by (auto simp: push_bulk_def split: option.splits)

lemma push_bulk_sends_once:
  "url service \<noteq> None \<Longrightarrow> hs_token service \<noteq> None
     \<Longrightarrow> length (snd (push_bulk env service events ephemeral to_device_messages
                        one_time_keys_count unused_fallback_keys device_list_summary txn)) = 1"
  by (auto simp: push_bulk_def Let_def split: option.splits sum.splits)

lemma push_bulk_asserts:
  "url service \<noteq> None \<Longrightarrow> hs_token service = None
     \<Longrightarrow> push_bulk env service events ephemeral to_device_messages one_time_keys_count
           unused_fallback_keys device_list_summary txn = (Inl AssertionError, [])"
  by (auto simp: push_bulk_def)

lemma claim_client_keys_needs_token:
  "snd (claim_client_keys env service query) \<noteq> [] \<Longrightarrow> hs_token service \<noteq> None"
  by (auto simp: claim_client_keys_def split: option.splits)

lemma claim_client_keys_sends_once:
  "url service \<noteq> None \<Longrightarrow> hs_token service \<noteq> None
     \<Longrightarrow> length (snd (claim_client_keys env service query)) = 1"
  by (auto simp: claim_client_keys_def Let_def split: option.splits sum.splits py_exception.splits)

lemma claim_client_keys_asserts:
  "url service \<noteq> None \<Longrightarrow> hs_token service = None
     \<Longrightarrow> claim_client_keys env service query = (Inl AssertionError, [])"
  by (auto simp: claim_client_keys_def)

lemma direct_operations_asserted:
  assumes "kind = ''user'' \<or> kind = ''location''"
  shows
    "(snd (query_user env service user_id) \<noteq> []
        \<or> snd (query_alias env service room_alias) \<noteq> []
        \<or> snd (query_3pe env service kind protocol flds) \<noteq> []
        \<or> snd (get_3pe_protocol_get env service u protocol) \<noteq> []
        \<or> snd (ping env service txn_id) \<noteq> []
        \<or> snd (push_bulk env service events ephemeral to_device_messages one_time_keys_count
                  unused_fallback_keys device_list_summary txn) \<noteq> []
        \<or> snd (claim_client_keys env service query) \<noteq> []
      \<longrightarrow> hs_token service \<noteq> None)
   \<and> (url service \<noteq> None \<and> hs_token service \<noteq> None
      \<longrightarrow> length (snd (query_user env service user_id)) = 1
        \<and> length (snd (query_alias env service room_alias)) = 1
        \<and> length (snd (query_3pe env service kind protocol flds)) = 1
        \<and> length (snd (get_3pe_protocol_get env service u protocol)) = 1
        \<and> length (snd (ping env service txn_id)) = 1
        \<and> length (snd (push_bulk env service events ephemeral to_device_messages
                           one_time_keys_count unused_fallback_keys device_list_summary txn)) = 1
        \<and> length (snd (claim_client_keys env service query)) = 1)
   \<and> (url service \<noteq> None \<and> hs_token service = None
      \<longrightarrow> query_user env service user_id = (Inl AssertionError, [])
        \<and> query_alias env service room_alias = (Inl AssertionError, [])
        \<and> query_3pe env service kind protocol flds = (Inl AssertionError, [])
        \<and> get_3pe_protocol_get env service u protocol = (Inl AssertionError, [])
        \<and> ping env service txn_id = (Inl AssertionError, [])
        \<and> push_bulk env service events ephemeral to_device_messages one_time_keys_count
             unused_fallback_keys device_list_summary txn = (Inl AssertionError, [])
        \<and> claim_client_keys env service query = (Inl AssertionError, []))"
proof (intro conjI impI)
  assume "snd (query_user env service user_id) \<noteq> []
        \<or> snd (query_alias env service room_alias) \<noteq> []
        \<or> snd (query_3pe env service kind protocol flds) \<noteq> []
        \<or> snd (get_3pe_protocol_get env service u protocol) \<noteq> []
        \<or> snd (ping env service txn_id) \<noteq> []
        \<or> snd (push_bulk env service events ephemeral to_device_messages one_time_keys_count
                  unused_fallback_keys device_list_summary txn) \<noteq> []
        \<or> snd (claim_client_keys env service query) \<noteq> []"
  then show "hs_token service \<noteq> None"
    by (elim disjE)
       (rule query_user_needs_token query_alias_needs_token query_3pe_needs_token
          get_3pe_protocol_get_needs_token ping_needs_token push_bulk_needs_token
          claim_client_keys_needs_token, assumption)+
next
  assume c: "url service \<noteq> None \<and> hs_token service \<noteq> None"
  from c show "length (snd (query_user env service user_id)) = 1"
    by (simp add: query_user_sends_once)
  from c show "length (snd (query_alias env service room_alias)) = 1"
    by (simp add: query_alias_sends_once)
  from c assms show "length (snd (query_3pe env service kind protocol flds)) = 1"
    by (simp add: query_3pe_sends_once)
  from c show "length (snd (get_3pe_protocol_get env service u protocol)) = 1"
    by (simp add: get_3pe_protocol_get_sends_once)
  from c show "length (snd (ping env service txn_id)) = 1"
    by (simp add: ping_once)
  from c show "length (snd (push_bulk env service events ephemeral to_device_messages
                           one_time_keys_count unused_fallback_keys device_list_summary txn)) = 1"
    by (simp add: push_bulk_sends_once)
  from c show "length (snd (claim_client_keys env service query)) = 1"
    by (simp add: claim_client_keys_sends_once)
next
  assume c: "url service \<noteq> None \<and> hs_token service = None"
  from c show "query_user env service user_id = (Inl AssertionError, [])"
    by (simp add: query_user_asserts)
  from c show "query_alias env service room_alias = (Inl AssertionError, [])"
    by (simp add: query_alias_asserts)
  from c assms show "query_3pe env service kind protocol flds = (Inl AssertionError, [])"
    by (simp add: query_3pe_asserts)
  from c show "get_3pe_protocol_get env service u protocol = (Inl AssertionError, [])"
    by (simp add: get_3pe_protocol_get_asserts)
  from c show "ping env service txn_id = (Inl AssertionError, [])"
    by (simp add: ping_asserts)
  from c show "push_bulk env service events ephemeral to_device_messages one_time_keys_count
             unused_fallback_keys device_list_summary txn = (Inl AssertionError, [])"
    by (simp add: push_bulk_asserts)
  from c show "claim_client_keys env service query = (Inl AssertionError, [])"
    by (simp add: claim_client_keys_asserts)
qed

lemma get_3pe_protocol_begin_needs_token:
  "snd (snd (get_3pe_protocol_begin c now service protocol)) \<noteq> [] \<Longrightarrow> hs_token service \<noteq> None"
  by (auto simp: get_3pe_protocol_begin_def get_3pe_protocol_request_def Let_def
      split: option.splits cache_entry.splits)

lemma step_call_needs_token:
  "sent (step env \<sigma> (Call n service protocol)) \<noteq> sent \<sigma> \<Longrightarrow> hs_token service \<noteq> None"
  by (auto simp: get_3pe_protocol_begin_def get_3pe_protocol_request_def Let_def
      split: option.splits cache_entry.splits)

lemma get_3pe_protocol_begin_sends_once:
  assumes "url service \<noteq> None" and "hs_token service \<noteq> None"
    and "cache_lookup c now (service_id service, protocol) = None"
  shows "fst (get_3pe_protocol_begin c now service protocol) = Awaiting (service_id service, protocol)
       \<and> length (snd (snd (get_3pe_protocol_begin c now service protocol))) = 1"
  using assms
  by (auto simp: get_3pe_protocol_begin_def get_3pe_protocol_request_def Let_def)

lemma get_3pe_protocol_begin_asserts:
  assumes "url service \<noteq> None" and "hs_token service = None"
    and "cache_lookup c now (service_id service, protocol) = None"
  shows "get_3pe_protocol_begin c now service protocol
           = (Returned (Inl AssertionError), c((service_id service, protocol) := None), [])"
  using assms
  by (auto simp: get_3pe_protocol_begin_def get_3pe_protocol_request_def Let_def)

lemma step_call_asserts:
  assumes "url service \<noteq> None" and "hs_token service = None"
    and "cache_lookup (cache \<sigma>) (clock \<sigma>) (service_id service, protocol) = None"
  shows "returned (step env \<sigma> (Call n service protocol)) n = Some (Inl AssertionError)
       \<and> sent (step env \<sigma> (Call n service protocol)) = sent \<sigma>
       \<and> awaiting (step env \<sigma> (Call n service protocol)) = awaiting \<sigma>"
  using assms
  by (simp add: get_3pe_protocol_begin_asserts)

text \<open>
  C9. Every operation that issues a request has passed the assertion that the token is
  set: a request in its trace implies the token. With URL and token set (the
  configuration invariant) the assertion passes and the request is issued. With the URL
  set and no token the operation ends in AssertionError with no request sent and no
  default returned. \<^verbatim>\<open>query_3pe\<close> is taken at the kinds of its signature. For
  \<^verbatim>\<open>get_3pe_protocol\<close> this is stated of the producer \<^verbatim>\<open>_get\<close>, of the operation up to
  its suspension point and of the call as a scheduled action: the operation reaches the
  network when the cache holds no live or pending entry for its key.
\<close>

theorem hs_token_asserted:
  assumes "kind = ''user'' \<or> kind = ''location''"
  shows
    "(snd (query_user env service user_id) \<noteq> []
        \<or> snd (query_alias env service room_alias) \<noteq> []
        \<or> snd (query_3pe env service kind protocol flds) \<noteq> []
        \<or> snd (get_3pe_protocol_get env service u protocol) \<noteq> []
        \<or> snd (ping env service txn_id) \<noteq> []
        \<or> snd (push_bulk env service events ephemeral to_device_messages one_time_keys_count
                  unused_fallback_keys device_list_summary txn) \<noteq> []
        \<or> snd (claim_client_keys env service query) \<noteq> []
      \<longrightarrow> hs_token service \<noteq> None)
   \<and> (url service \<noteq> None \<and> hs_token service \<noteq> None
      \<longrightarrow> length (snd (query_user env service user_id)) = 1
        \<and> length (snd (query_alias env service room_alias)) = 1
        \<and> length (snd (query_3pe env service kind protocol flds)) = 1
        \<and> length (snd (get_3pe_protocol_get env service u protocol)) = 1
        \<and> length (snd (ping env service txn_id)) = 1
        \<and> length (snd (push_bulk env service events ephemeral to_device_messages
                           one_time_keys_count unused_fallback_keys device_list_summary txn)) = 1
        \<and> length (snd (claim_client_keys env service query)) = 1)
   \<and> (url service \<noteq> None \<and> hs_token service = None
      \<longrightarrow> query_user env service user_id = (Inl AssertionError, [])
        \<and> query_alias env service room_alias = (Inl AssertionError, [])
        \<and> query_3pe env service kind protocol flds = (Inl AssertionError, [])
        \<and> get_3pe_protocol_get env service u protocol = (Inl AssertionError, [])
        \<and> ping env service txn_id = (Inl AssertionError, [])
        \<and> push_bulk env service events ephemeral to_device_messages one_time_keys_count
             unused_fallback_keys device_list_summary txn = (Inl AssertionError, [])
        \<and> claim_client_keys env service query = (Inl AssertionError, []))
   \<and> (snd (snd (get_3pe_protocol_begin c now service protocol)) \<noteq> []
        \<or> sent (step env \<sigma> (Call n service protocol)) \<noteq> sent \<sigma>
      \<longrightarrow> hs_token service \<noteq> None)
   \<and> (url service \<noteq> None \<and> hs_token service \<noteq> None
        \<and> cache_lookup c now (service_id service, protocol) = None
      \<longrightarrow> fst (get_3pe_protocol_begin c now service protocol) = Awaiting (service_id service, protocol)
        \<and> length (snd (snd (get_3pe_protocol_begin c now service protocol))) = 1)
   \<and> (url service \<noteq> None \<and> hs_token service = None
        \<and> cache_lookup c now (service_id service, protocol) = None
      \<longrightarrow> get_3pe_protocol_begin c now service protocol
            = (Returned (Inl AssertionError), c((service_id service, protocol) := None), []))
   \<and> (url service \<noteq> None \<and> hs_token service = None
        \<and> cache_lookup (cache \<sigma>) (clock \<sigma>) (service_id service, protocol) = None
      \<longrightarrow> returned (step env \<sigma> (Call n service protocol)) n = Some (Inl AssertionError)
        \<and> sent (step env \<sigma> (Call n service protocol)) = sent \<sigma>
        \<and> awaiting (step env \<sigma> (Call n service protocol)) = awaiting \<sigma>)"
proof -
  note direct = direct_operations_asserted [OF assms, of env service user_id room_alias protocol
      flds u txn_id events ephemeral to_device_messages one_time_keys_count unused_fallback_keys
      device_list_summary txn query]
  have reach: "snd (snd (get_3pe_protocol_begin c now service protocol)) \<noteq> []
        \<or> sent (step env \<sigma> (Call n service protocol)) \<noteq> sent \<sigma>
      \<longrightarrow> hs_token service \<noteq> None"
    using get_3pe_protocol_begin_needs_token [of c now service protocol]
      step_call_needs_token [of env \<sigma> n service protocol]
    by blast
  have once: "url service \<noteq> None \<and> hs_token service \<noteq> None
        \<and> cache_lookup c now (service_id service, protocol) = None
      \<longrightarrow> fst (get_3pe_protocol_begin c now service protocol) = Awaiting (service_id service, protocol)
        \<and> length (snd (snd (get_3pe_protocol_begin c now service protocol))) = 1"
    using get_3pe_protocol_begin_sends_once [of service c now protocol] by blast
  have abort: "url service \<noteq> None \<and> hs_token service = None
        \<and> cache_lookup c now (service_id service, protocol) = None
      \<longrightarrow> get_3pe_protocol_begin c now service protocol
            = (Returned (Inl AssertionError), c((service_id service, protocol) := None), [])"
    using get_3pe_protocol_begin_asserts [of service c now protocol] by blast
  have sched: "url service \<noteq> None \<and> hs_token service = None
        \<and> cache_lookup (cache \<sigma>) (clock \<sigma>) (service_id service, protocol) = None
      \<longrightarrow> returned (step env \<sigma> (Call n service protocol)) n = Some (Inl AssertionError)
        \<and> sent (step env \<sigma> (Call n service protocol)) = sent \<sigma>
        \<and> awaiting (step env \<sigma> (Call n service protocol)) = awaiting \<sigma>"
    using step_call_asserts [of service \<sigma> protocol env n] by blast
  from direct reach once abort sched show ?thesis
    by - (elim conjE, intro conjI, assumption+)
qed

theorem hs_token_asserted_witness:
  "(''location'' = ''user'' \<or> ''location'' = ''location'')
   \<and> url (example_service\<lparr> hs_token := None \<rparr>) \<noteq> None
   \<and> hs_token (example_service\<lparr> hs_token := None \<rparr>) = None
   \<and> query_3pe (answer_with (Inr (JList []))) (example_service\<lparr> hs_token := None \<rparr>)
        ''location'' ''irc'' [] = (Inl AssertionError, [])
   \<and> length (snd (query_3pe (answer_with (Inr (JList []))) example_service ''location'' ''irc'' [])) = 1
   \<and> cache_lookup (cache initial) 0 (service_id (example_service\<lparr> hs_token := None \<rparr>), ''irc'') = None
   \<and> fst (get_3pe_protocol_begin (cache initial) 0 (example_service\<lparr> hs_token := None \<rparr>) ''irc'')
       = Returned (Inl AssertionError)
   \<and> snd (snd (get_3pe_protocol_begin (cache initial) 0 (example_service\<lparr> hs_token := None \<rparr>) ''irc''))
       = []
   \<and> length (snd (snd (get_3pe_protocol_begin (cache initial) 0 example_service ''irc''))) = 1"
proof -
  let ?env = "answer_with (Inr (JList []))"
  let ?bad = "example_service\<lparr> hs_token := None \<rparr>"
  have k: "''location'' = ''user'' \<or> ''location'' = ''location''" by simp
  have bad: "url ?bad \<noteq> None \<and> hs_token ?bad = None"
    by (simp add: example_service_def)
  have good: "url example_service \<noteq> None \<and> hs_token example_service \<noteq> None"
    by (simp add: example_service_def)
  have miss: "cache_lookup (cache initial) 0 (service_id ?bad, ''irc'') = None"
    and miss': "cache_lookup (cache initial) 0 (service_id example_service, ''irc'') = None"
    by (simp_all add: cache_lookup_def initial_def)
  have a: "query_3pe ?env ?bad ''location'' ''irc'' [] = (Inl AssertionError, [])"
    using bad hs_token_asserted [OF k, of ?env ?bad, THEN conjunct2, THEN conjunct2, THEN conjunct1]
    by blast
  have b: "length (snd (query_3pe ?env example_service ''location'' ''irc'' [])) = 1"
    using good hs_token_asserted [OF k, of ?env example_service, THEN conjunct2, THEN conjunct1]
    by blast
  have "get_3pe_protocol_begin (cache initial) 0 ?bad ''irc''
          = (Returned (Inl AssertionError), (cache initial)((service_id ?bad, ''irc'') := None), [])"
    using bad miss
      hs_token_asserted [OF k, where service = ?bad and protocol = "''irc''" and c = "cache initial"
        and now = 0, THEN conjunct2, THEN conjunct2, THEN conjunct2, THEN conjunct2, THEN conjunct2,
        THEN conjunct1]
    by blast
  then have c: "fst (get_3pe_protocol_begin (cache initial) 0 ?bad ''irc'') = Returned (Inl AssertionError)"
    and d: "snd (snd (get_3pe_protocol_begin (cache initial) 0 ?bad ''irc'')) = []"
    by simp_all
  have e: "length (snd (snd (get_3pe_protocol_begin (cache initial) 0 example_service ''irc''))) = 1"
    using good miss'
      hs_token_asserted [OF k, where service = example_service and protocol = "''irc''"
        and c = "cache initial" and now = 0, THEN conjunct2, THEN conjunct2, THEN conjunct2,
        THEN conjunct2, THEN conjunct1]
    by blast
  from k bad a b miss c d e show ?thesis by blast
qed

subsection \<open>The protocol metadata cache\<close>

lemma step_pending:
  assumes "cache \<sigma> key = Some (Pending p)" and "\<not> is_reply_for key a"
  shows "cache (step env \<sigma> a) key = Some (Pending p)
       \<and> sent_for key (step env \<sigma> a) = sent_for key \<sigma>
       \<and> (\<forall>n. (n, key) \<in> set (awaiting \<sigma>) \<longrightarrow> (n, key) \<in> set (awaiting (step env \<sigma> a)))"
proof (cases a)
  case (Tick d)
  then show ?thesis using assms by (simp add: sent_for_def)
next
  case (Reply key' answer)
  with assms have "key' \<noteq> key" by simp
  then show ?thesis using assms Reply
    by (auto simp: sent_for_def get_3pe_protocol_complete_def cache_store_def Let_def
        split: option.splits cache_entry.splits)
next
  case (Call n service protocol)
  show ?thesis
  proof (cases "(service_id service, protocol) = key")
    case True
    then show ?thesis using assms Call
      by (auto simp: sent_for_def get_3pe_protocol_begin_def cache_lookup_def Let_def
          split: option.splits)
  next
    case False
    then show ?thesis using assms Call
      by (auto simp: sent_for_def get_3pe_protocol_begin_def Let_def
          split: option.splits cache_entry.splits sum.splits)
  qed
qed

lemma run_pending:
  assumes "cache \<sigma> key = Some (Pending p)" and "\<forall>a \<in> set acts. \<not> is_reply_for key a"
  shows "cache (run env \<sigma> acts) key = Some (Pending p)
       \<and> sent_for key (run env \<sigma> acts) = sent_for key \<sigma>
       \<and> (\<forall>n. (n, key) \<in> set (awaiting \<sigma>) \<longrightarrow> (n, key) \<in> set (awaiting (run env \<sigma> acts)))"
  using assms
proof (induction acts arbitrary: \<sigma>)
  case Nil
  then show ?case by (simp add: run_def)
next
  case (Cons a acts)
  from Cons.prems have a: "\<not> is_reply_for key a" and r: "\<forall>a \<in> set acts. \<not> is_reply_for key a"
    by simp_all
  note s = step_pending [OF Cons.prems(1) a, of env]
  from s have c: "cache (step env \<sigma> a) key = Some (Pending p)" by blast
  from Cons.IH [OF c r] s show ?case
    by (simp add: run_def)
qed


lemma step_sends_at_most_one:
  "sent_for key (step env \<sigma> a) = sent_for key \<sigma>
   \<or> ((\<exists>p. cache (step env \<sigma> a) key = Some (Pending p))
      \<and> length (sent_for key (step env \<sigma> a)) = length (sent_for key \<sigma>) + 1)"
proof (cases a)
  case (Tick d)
  then show ?thesis by (simp add: sent_for_def)
next
  case (Reply key' answer)
  then show ?thesis
    by (auto simp: sent_for_def get_3pe_protocol_complete_def Let_def
        split: option.splits cache_entry.splits)
next
  case (Call n service protocol)
  then show ?thesis
    by (auto simp: sent_for_def get_3pe_protocol_begin_def Let_def
        split: option.splits cache_entry.splits sum.splits)
qed

lemma run_sends_at_most_one:
  assumes "\<forall>a \<in> set acts. \<not> is_reply_for key a"
  shows "length (sent_for key (run env \<sigma> acts)) \<le> length (sent_for key \<sigma>) + 1"
  using assms
proof (induction acts arbitrary: \<sigma>)
  case Nil
  then show ?case by (simp add: run_def)
next
  case (Cons a acts)
  from Cons.prems have r: "\<forall>a \<in> set acts. \<not> is_reply_for key a" by simp
  have unfold: "run env \<sigma> (a # acts) = run env (step env \<sigma> a) acts"
    by (simp add: run_def)
  from step_sends_at_most_one [of key env \<sigma> a] show ?case
  proof
    assume "sent_for key (step env \<sigma> a) = sent_for key \<sigma>"
    with Cons.IH [OF r, of "step env \<sigma> a"] show ?thesis by (simp add: unfold)
  next
    assume "(\<exists>p. cache (step env \<sigma> a) key = Some (Pending p))
      \<and> length (sent_for key (step env \<sigma> a)) = length (sent_for key \<sigma>) + 1"
    then obtain p where p: "cache (step env \<sigma> a) key = Some (Pending p)"
      and l: "length (sent_for key (step env \<sigma> a)) = length (sent_for key \<sigma>) + 1" by blast
    from run_pending [OF p r, of env] l show ?thesis by (simp add: unfold)
  qed
qed

lemma awaiting_pending_iff:
  "awaiting_pending \<sigma> \<longleftrightarrow>
     (\<forall>w \<in> set (awaiting \<sigma>). \<exists>p. cache \<sigma> (snd w) = Some (Pending p))"
proof -
  have "\<And>c. (case c of Some (Pending producer) \<Rightarrow> True | _ \<Rightarrow> False)
               \<longleftrightarrow> (\<exists>p. c = Some (Pending p))"
    by (simp split: option.splits cache_entry.splits)
  then show ?thesis
    by (simp add: awaiting_pending_def list_all_iff)
qed

lemma step_awaiting_pending:
  assumes "awaiting_pending \<sigma>"
  shows "awaiting_pending (step env \<sigma> a)"
proof (cases a)
  case (Tick d)
  then show ?thesis using assms by (simp add: awaiting_pending_iff)
next
  case (Reply key answer)
  then show ?thesis using assms
    by (auto simp: awaiting_pending_iff get_3pe_protocol_complete_def cache_store_def
        Let_def split: option.splits cache_entry.splits)
next
  case (Call n service protocol)
  then show ?thesis using assms
    by (fastforce simp: awaiting_pending_iff get_3pe_protocol_begin_def cache_lookup_def
        Let_def split: option.splits cache_entry.splits sum.splits if_splits)
qed

lemma run_awaiting_pending:
  "awaiting_pending \<sigma> \<Longrightarrow> awaiting_pending (run env \<sigma> acts)"
proof (induction acts arbitrary: \<sigma>)
  case Nil
  then show ?case by (simp add: run_def)
next
  case (Cons a acts)
  from Cons.IH [OF step_awaiting_pending [OF Cons.prems, of env a]]
  show ?case by (simp add: run_def)
qed

lemma initial_awaiting_pending: "awaiting_pending initial"
  by (simp add: awaiting_pending_iff initial_def)

lemma awaiting_pendingD:
  "awaiting_pending \<sigma> \<Longrightarrow> (n, key) \<in> set (awaiting \<sigma>) \<Longrightarrow> \<exists>p. cache \<sigma> key = Some (Pending p)"
  by (fastforce simp: awaiting_pending_iff)

lemma step_reply:
  assumes "cache \<sigma> key = Some (Pending p)"
  shows "cache (step env \<sigma> (Reply key answer)) key
           = Some (Complete (get_3pe_protocol_result env p answer) (clock \<sigma> + HOUR_IN_MS))"
    and "sent (step env \<sigma> (Reply key answer)) = sent \<sigma>"
    and "clock (step env \<sigma> (Reply key answer)) = clock \<sigma>"
    and "(n, key) \<in> set (awaiting \<sigma>)
           \<Longrightarrow> returned (step env \<sigma> (Reply key answer)) n
                 = Some (Inr (get_3pe_protocol_result env p answer))"
  using assms
  by (simp_all add: get_3pe_protocol_complete_def cache_store_def Let_def)

lemma step_idle:
  assumes "cache \<sigma> key = Some (Complete v e)"
    and "\<not> is_reply_for key a" and "\<not> is_call_for key a"
  shows "cache (step env \<sigma> a) key = Some (Complete v e)
       \<and> sent_for key (step env \<sigma> a) = sent_for key \<sigma>
       \<and> clock \<sigma> \<le> clock (step env \<sigma> a)"
proof (cases a)
  case (Tick d)
  then show ?thesis using assms by (simp add: sent_for_def)
next
  case (Reply key' answer)
  with assms have "key' \<noteq> key" by simp
  then show ?thesis using assms Reply
    by (auto simp: sent_for_def get_3pe_protocol_complete_def cache_store_def Let_def
        split: option.splits cache_entry.splits)
next
  case (Call n service protocol)
  with assms have "(service_id service, protocol) \<noteq> key" by simp
  then show ?thesis using assms Call
    by (auto simp: sent_for_def get_3pe_protocol_begin_def Let_def
        split: option.splits cache_entry.splits sum.splits)
qed

lemma run_idle:
  assumes "cache \<sigma> key = Some (Complete v e)"
    and "\<forall>a \<in> set acts. \<not> is_reply_for key a \<and> \<not> is_call_for key a"
  shows "cache (run env \<sigma> acts) key = Some (Complete v e)
       \<and> sent_for key (run env \<sigma> acts) = sent_for key \<sigma>
       \<and> clock \<sigma> \<le> clock (run env \<sigma> acts)"
  using assms
proof (induction acts arbitrary: \<sigma>)
  case Nil
  then show ?case by (simp add: run_def)
next
  case (Cons a acts)
  from Cons.prems have a: "\<not> is_reply_for key a" "\<not> is_call_for key a"
    and r: "\<forall>a \<in> set acts. \<not> is_reply_for key a \<and> \<not> is_call_for key a"
    by simp_all
  note s = step_idle [OF Cons.prems(1) a, of env]
  from s have c: "cache (step env \<sigma> a) key = Some (Complete v e)" by blast
  from Cons.IH [OF c r] s show ?case
    by (auto simp: run_def)
qed

lemma step_call_complete:
  assumes "cache \<sigma> (service_id service, protocol) = Some (Complete v e)"
    and "url service = Some u" and "hs_token service = Some tok"
  shows "e \<le> clock \<sigma> \<Longrightarrow>
           length (sent_for (service_id service, protocol) (step env \<sigma> (Call n service protocol)))
             = length (sent_for (service_id service, protocol) \<sigma>) + 1
           \<and> (n, (service_id service, protocol)) \<in> set (awaiting (step env \<sigma> (Call n service protocol)))"
    and "clock \<sigma> < e \<Longrightarrow>
           sent (step env \<sigma> (Call n service protocol)) = sent \<sigma>
           \<and> returned (step env \<sigma> (Call n service protocol)) n = Some (Inr v)"
  using assms
  by (simp_all add: sent_for_def get_3pe_protocol_begin_def cache_lookup_def
      get_3pe_protocol_request_def Let_def)


lemma step_call_pending:
  assumes "cache \<sigma> (service_id service, protocol) = Some (Pending p)" and "url service \<noteq> None"
  shows "(n, (service_id service, protocol)) \<in> set (awaiting (step env \<sigma> (Call n service protocol)))"
  using assms
  by (auto simp: get_3pe_protocol_begin_def cache_lookup_def Let_def)

lemma sent_for_cong: "sent \<sigma> = sent \<sigma>' \<Longrightarrow> sent_for key \<sigma> = sent_for key \<sigma>'"
  by (simp add: sent_for_def)

text \<open>
  C8. Take any run from the initial state, a call of \<^verbatim>\<open>get_3pe_protocol\<close> that is in flight
  (it awaits its key), a second call with the same (service id, protocol) key made
  before the transport has answered, and then the answer. The two calls, and whatever
  else ran in between, have issued at most one request for the key, the second call
  and the answer none, and both calls receive the same result. When no other call or
  answer for the key intervenes, a further call made once \<open>HOUR_IN_MS\<close> milliseconds have
  passed since the result was stored issues a fresh request and awaits it; made
  earlier, it issues none and returns the stored result.
\<close>

theorem get_3pe_protocol_single_flight:
  assumes s1: "url s1 \<noteq> None" "(service_id s1, protocol) = key"
    and s2: "url s2 \<noteq> None" "(service_id s2, protocol) = key"
    and s3: "url s3 \<noteq> None" "hs_token s3 \<noteq> None" "(service_id s3, protocol) = key"
    and in_flight: "(n1, key) \<in> set (awaiting (step env (run env initial pre) (Call n1 s1 protocol)))"
    and mid: "\<forall>a \<in> set mid. \<not> is_reply_for key a"
    and rest: "\<forall>a \<in> set rest. \<not> is_reply_for key a"
    and idle: "\<forall>a \<in> set idle. \<not> is_reply_for key a \<and> \<not> is_call_for key a"
  shows
    "(let \<sigma>0 = run env initial pre;
          \<sigma>1 = step env \<sigma>0 (Call n1 s1 protocol);
          \<sigma>2 = step env (run env \<sigma>1 mid) (Call n2 s2 protocol);
          \<sigma>3 = step env (run env \<sigma>2 rest) (Reply key answer);
          \<sigma>4 = run env \<sigma>3 idle;
          \<sigma>5 = step env \<sigma>4 (Call n3 s3 protocol)
      in length (sent_for key \<sigma>2) \<le> length (sent_for key \<sigma>0) + 1
         \<and> sent_for key \<sigma>3 = sent_for key \<sigma>1
         \<and> (\<exists>v. returned \<sigma>3 n1 = Some (Inr v) \<and> returned \<sigma>3 n2 = Some (Inr v))
         \<and> (clock \<sigma>3 + HOUR_IN_MS \<le> clock \<sigma>4
              \<longrightarrow> length (sent_for key \<sigma>5) = length (sent_for key \<sigma>1) + 1
                  \<and> (n3, key) \<in> set (awaiting \<sigma>5))
         \<and> (clock \<sigma>4 < clock \<sigma>3 + HOUR_IN_MS
              \<longrightarrow> sent_for key \<sigma>5 = sent_for key \<sigma>1 \<and> returned \<sigma>5 n3 = returned \<sigma>3 n1))"
proof -
  define \<sigma>0 where "\<sigma>0 = run env initial pre"
  define \<sigma>1 where "\<sigma>1 = step env \<sigma>0 (Call n1 s1 protocol)"
  define m where "m = run env \<sigma>1 mid"
  define \<sigma>2 where "\<sigma>2 = step env m (Call n2 s2 protocol)"
  define r where "r = run env \<sigma>2 rest"
  define \<sigma>3 where "\<sigma>3 = step env r (Reply key answer)"
  define \<sigma>4 where "\<sigma>4 = run env \<sigma>3 idle"
  define \<sigma>5 where "\<sigma>5 = step env \<sigma>4 (Call n3 s3 protocol)"
  have "awaiting_pending \<sigma>0"
    unfolding \<sigma>0_def by (rule run_awaiting_pending [OF initial_awaiting_pending])
  then have "awaiting_pending \<sigma>1"
    unfolding \<sigma>1_def by (rule step_awaiting_pending)
  moreover from in_flight have w1: "(n1, key) \<in> set (awaiting \<sigma>1)"
    by (simp add: \<sigma>1_def \<sigma>0_def)
  ultimately obtain p where p1: "cache \<sigma>1 key = Some (Pending p)"
    using awaiting_pendingD by blast
  note pm = run_pending [OF p1 mid, of env, folded m_def]
  from pm have cm: "cache m key = Some (Pending p)" and sm: "sent_for key m = sent_for key \<sigma>1"
    and wm: "(n1, key) \<in> set (awaiting m)" using w1 by blast+
  have nr: "\<not> is_reply_for key (Call n2 s2 protocol)" by simp
  note p2 = step_pending [OF cm nr, of env, folded \<sigma>2_def]
  from p2 have c2: "cache \<sigma>2 key = Some (Pending p)" and s2': "sent_for key \<sigma>2 = sent_for key \<sigma>1"
    and w12: "(n1, key) \<in> set (awaiting \<sigma>2)" using sm wm by auto
  have w22: "(n2, key) \<in> set (awaiting \<sigma>2)"
    using step_call_pending [of m s2 protocol p n2 env] cm s2 by (simp add: \<sigma>2_def)
  note pr = run_pending [OF c2 rest, of env, folded r_def]
  from pr have cr: "cache r key = Some (Pending p)" and sr: "sent_for key r = sent_for key \<sigma>1"
    and w1r: "(n1, key) \<in> set (awaiting r)" and w2r: "(n2, key) \<in> set (awaiting r)"
    using s2' w12 w22 by auto
  let ?v = "get_3pe_protocol_result env p answer"
  have c3: "cache \<sigma>3 key = Some (Complete ?v (clock r + HOUR_IN_MS))"
    unfolding \<sigma>3_def by (rule step_reply(1) [OF cr])
  have s3': "sent_for key \<sigma>3 = sent_for key \<sigma>1"
    using sent_for_cong [OF step_reply(2) [OF cr, of env answer]] sr by (simp add: \<sigma>3_def)
  have k3: "clock \<sigma>3 = clock r"
    unfolding \<sigma>3_def by (rule step_reply(3) [OF cr])
  have r1: "returned \<sigma>3 n1 = Some (Inr ?v)"
    unfolding \<sigma>3_def by (rule step_reply(4) [OF cr w1r])
  have r2: "returned \<sigma>3 n2 = Some (Inr ?v)"
    unfolding \<sigma>3_def by (rule step_reply(4) [OF cr w2r])
  have one: "length (sent_for key \<sigma>2) \<le> length (sent_for key \<sigma>0) + 1"
    using step_sends_at_most_one [of key env \<sigma>0 "Call n1 s1 protocol"] s2'
    by (auto simp: \<sigma>1_def)
  note i4 = run_idle [OF c3 idle, of env, folded \<sigma>4_def]
  from i4 have c4: "cache \<sigma>4 (service_id s3, protocol) = Some (Complete ?v (clock \<sigma>3 + HOUR_IN_MS))"
    and s4: "sent_for key \<sigma>4 = sent_for key \<sigma>1"
    using s3' k3 s3(3) by auto
  from s3 obtain u tok where u: "url s3 = Some u" and tok: "hs_token s3 = Some tok" by auto
  have fresh: "clock \<sigma>3 + HOUR_IN_MS \<le> clock \<sigma>4
      \<longrightarrow> length (sent_for key \<sigma>5) = length (sent_for key \<sigma>1) + 1 \<and> (n3, key) \<in> set (awaiting \<sigma>5)"
    using step_call_complete(1) [OF c4 u tok, of env n3] s4 s3(3) by (auto simp: \<sigma>5_def)
  have cached: "clock \<sigma>4 < clock \<sigma>3 + HOUR_IN_MS
      \<longrightarrow> sent_for key \<sigma>5 = sent_for key \<sigma>1 \<and> returned \<sigma>5 n3 = returned \<sigma>3 n1"
  proof
    assume lt: "clock \<sigma>4 < clock \<sigma>3 + HOUR_IN_MS"
    note h = step_call_complete(2) [OF c4 u tok lt, of env n3, folded \<sigma>5_def]
    from h have "sent \<sigma>5 = sent \<sigma>4" and rr: "returned \<sigma>5 n3 = Some (Inr ?v)" by blast+
    then have "sent_for key \<sigma>5 = sent_for key \<sigma>4" by (simp add: sent_for_def)
    with s4 rr r1 show "sent_for key \<sigma>5 = sent_for key \<sigma>1 \<and> returned \<sigma>5 n3 = returned \<sigma>3 n1"
      by simp
  qed
  from one s3' r1 r2 fresh cached show ?thesis
    unfolding Let_def \<sigma>0_def \<sigma>1_def m_def \<sigma>2_def r_def \<sigma>3_def \<sigma>4_def \<sigma>5_def
    by blast
qed


theorem get_3pe_protocol_single_flight_witness:
  "(let env = answer_with (Inr JNull);
        key = (''bridge'', ''irc'');
        \<sigma>1 = step env (run env initial []) (Call 1 example_service ''irc'');
        \<sigma>2 = step env (run env \<sigma>1 [Tick 10]) (Call 2 example_service ''irc'');
        \<sigma>3 = step env (run env \<sigma>2 [Tick 5]) (Reply key (Inr (JDict [(''instances'', JList [])])));
        \<sigma>4 = run env \<sigma>3 [Tick HOUR_IN_MS];
        \<sigma>5 = step env \<sigma>4 (Call 3 example_service ''irc'')
    in (1, key) \<in> set (awaiting \<sigma>1)
       \<and> length (sent_for key \<sigma>2) \<le> length (sent_for key (run env initial [])) + 1
       \<and> (\<exists>v. returned \<sigma>3 1 = Some (Inr v) \<and> returned \<sigma>3 2 = Some (Inr v))
       \<and> length (sent_for key \<sigma>5) = length (sent_for key \<sigma>1) + 1)"
proof -
  let ?E = "answer_with (Inr JNull)"
  let ?K = "(''bridge'', ''irc'')"
  let ?ans = "Inr (JDict [(''instances'', JList [])]) :: py_exception + json"
  let ?s1 = "step ?E (run ?E initial []) (Call 1 example_service ''irc'')"
  let ?s2 = "step ?E (run ?E ?s1 [Tick 10]) (Call 2 example_service ''irc'')"
  let ?s3 = "step ?E (run ?E ?s2 [Tick 5]) (Reply ?K ?ans)"
  let ?s4 = "run ?E ?s3 [Tick HOUR_IN_MS]"
  have u: "url example_service \<noteq> None" and t: "hs_token example_service \<noteq> None"
    and k: "(service_id example_service, ''irc'') = ?K"
    by (simp_all add: example_service_def)
  have fl: "(1, ?K) \<in> set (awaiting ?s1)"
    by (simp add: run_def initial_def get_3pe_protocol_begin_def cache_lookup_def
        get_3pe_protocol_request_def example_service_def Let_def)
  have mid: "\<forall>a \<in> set [Tick 10]. \<not> is_reply_for ?K a" by simp
  have rest: "\<forall>a \<in> set [Tick 5]. \<not> is_reply_for ?K a" by simp
  have idle: "\<forall>a \<in> set [Tick HOUR_IN_MS]. \<not> is_reply_for ?K a \<and> \<not> is_call_for ?K a" by simp
  note T = get_3pe_protocol_single_flight [OF u k u k u t k fl mid rest idle,
      where ?n2.0 = 2 and answer = ?ans and ?n3.0 = 3, unfolded Let_def]
  have clk: "clock ?s3 + HOUR_IN_MS \<le> clock ?s4"
    unfolding run_def foldl.simps step.simps(1) by simp
  from T have a: "length (sent_for ?K ?s2) \<le> length (sent_for ?K (run ?E initial [])) + 1"
    by (rule conjunct1)
  from T have b: "\<exists>v. returned ?s3 1 = Some (Inr v) \<and> returned ?s3 2 = Some (Inr v)"
    by (rule conjunct2 [THEN conjunct2, THEN conjunct1])
  from T have "clock ?s3 + HOUR_IN_MS \<le> clock ?s4
      \<longrightarrow> length (sent_for ?K (step ?E ?s4 (Call 3 example_service ''irc'')))
            = length (sent_for ?K ?s1) + 1
          \<and> (3, ?K) \<in> set (awaiting (step ?E ?s4 (Call 3 example_service ''irc'')))"
    by (rule conjunct2 [THEN conjunct2, THEN conjunct2, THEN conjunct1])
  with clk have c: "length (sent_for ?K (step ?E ?s4 (Call 3 example_service ''irc'')))
            = length (sent_for ?K ?s1) + 1"
    by blast
  from fl a b c show ?thesis
    unfolding Let_def by blast
qed

end
